theory Spec2Isabelle
  imports Main
begin

section \<open>Go strings: the library functions the router calls\<close>

text \<open>
  A Go \<^verbatim>\<open>string\<close> is a sequence of bytes, modelled as \<^typ>\<open>string\<close> (a list of 8-bit
  \<^typ>\<open>char\<close>). \<^verbatim>\<open>strings.Index\<close> returns \<^verbatim>\<open>-1\<close> when the substring is absent, here \<^term>\<open>None\<close>.
\<close>

definition strings_TrimSuffix :: "string \<Rightarrow> string \<Rightarrow> string" where
  "strings_TrimSuffix s suffix =
     (if length suffix \<le> length s \<and> drop (length s - length suffix) s = suffix
      then take (length s - length suffix) s else s)"

fun strings_Index :: "string \<Rightarrow> string \<Rightarrow> nat option" where
  "strings_Index [] substr = (if substr = [] then Some 0 else None)"
| "strings_Index (c # s) substr =
     (if take (length substr) (c # s) = substr then Some 0
      else map_option Suc (strings_Index s substr))"

text \<open>\<^verbatim>\<open>s[lo:hi]\<close> for \<^verbatim>\<open>lo <= hi <= len(s)\<close>.\<close>

definition slice :: "'a list \<Rightarrow> nat \<Rightarrow> nat \<Rightarrow> 'a list" where
  "slice s lo hi = take (hi - lo) (drop lo s)"

definition byte_val :: "char \<Rightarrow> nat" where
  "byte_val c = of_char c"

text \<open>
  \<^verbatim>\<open>string(b)\<close> for a byte \<^verbatim>\<open>b\<close>: Go converts an integer to the UTF-8 encoding of the code
  point with that number, so a byte below 0x80 gives the one-byte string and a byte from 0x80
  up gives a two-byte sequence.
\<close>

definition string_of_byte :: "char \<Rightarrow> string" where
  "string_of_byte b =
     (if byte_val b < 128 then [b]
      else [char_of (192 + byte_val b div 64), char_of (128 + byte_val b mod 64)])"

text \<open>\<^verbatim>\<open>regexp.QuoteMeta\<close>: a backslash before each of \<^verbatim>\<open>\\.+*?()|[]{}^$\<close>.\<close>

definition special_byte :: "char \<Rightarrow> bool" where
  "special_byte b = (b \<in> set (CHR 0x5C # ''.+*?()|[]{}^$''))"

fun QuoteMeta :: "string \<Rightarrow> string" where
  "QuoteMeta [] = []"
| "QuoteMeta (b # s) = (if special_byte b then CHR 0x5C # b # QuoteMeta s else b # QuoteMeta s)"

section \<open>The regexp library: UTF-8 decoding, syntax and leftmost-first matching\<close>

type_synonym rune = nat

definition RuneError :: rune where
  "RuneError = 65533"

definition cont :: "char \<Rightarrow> bool" where
  "cont c = (128 \<le> byte_val c \<and> byte_val c \<le> 191)"

fun DecodeRuneInString :: "string \<Rightarrow> rune \<times> nat" where
  "DecodeRuneInString [] = (RuneError, 0)"
| "DecodeRuneInString (c0 # t) =
     (let b0 = byte_val c0 in
      if b0 < 128 then (b0, 1)
      else if 194 \<le> b0 \<and> b0 \<le> 223 then
        (case t of
           c1 # _ \<Rightarrow>
             if cont c1 then ((b0 - 192) * 64 + (byte_val c1 - 128), 2)
             else (RuneError, 1)
         | _ \<Rightarrow> (RuneError, 1))
      else if 224 \<le> b0 \<and> b0 \<le> 239 then
        (case t of
           c1 # c2 # _ \<Rightarrow>
             let b1 = byte_val c1 in
             if (if b0 = 224 then 160 else 128) \<le> b1
                \<and> b1 \<le> (if b0 = 237 then 159 else 191) \<and> cont c2
             then ((b0 - 224) * 4096 + (b1 - 128) * 64 + (byte_val c2 - 128), 3)
             else (RuneError, 1)
         | _ \<Rightarrow> (RuneError, 1))
      else if 240 \<le> b0 \<and> b0 \<le> 244 then
        (case t of
           c1 # c2 # c3 # _ \<Rightarrow>
             let b1 = byte_val c1 in
             if (if b0 = 240 then 144 else 128) \<le> b1
                \<and> b1 \<le> (if b0 = 244 then 143 else 191) \<and> cont c2 \<and> cont c3
             then ((b0 - 240) * 262144 + (b1 - 128) * 4096
                   + (byte_val c2 - 128) * 64 + (byte_val c3 - 128), 4)
             else (RuneError, 1)
         | _ \<Rightarrow> (RuneError, 1))
      else (RuneError, 1))"

datatype regex =
    EmptyMatch
  | Literal rune
  | AnyCharNotNL
  | CharClass bool "(rune \<times> rune) list"
  | BeginText
  | EndText
  | Capture nat regex
  | Star regex
  | Plus regex
  | Quest regex
  | Concat regex regex
  | Alternate regex regex

type_synonym caps = "string option list"

fun in_class :: "(rune \<times> rune) list \<Rightarrow> rune \<Rightarrow> bool" where
  "in_class [] r = False"
| "in_class ((lo, hi) # rs) r = ((lo \<le> r \<and> r \<le> hi) \<or> in_class rs r)"

definition step_rune :: "(rune \<Rightarrow> bool) \<Rightarrow> string \<Rightarrow> caps
    \<Rightarrow> (string \<Rightarrow> caps \<Rightarrow> 'a option) \<Rightarrow> 'a option" where
  "step_rune P rest c k =
     (if rest = [] then None
      else (let (r, w) = DecodeRuneInString rest in
            if P r then k (drop w rest) c else None))"

fun weight :: "regex \<Rightarrow> nat" where
  "weight (Capture i re) = Suc (weight re)"
| "weight (Star re) = Suc (weight re)"
| "weight (Plus re) = Suc (Suc (weight re))"
| "weight (Quest re) = Suc (weight re)"
| "weight (Concat a b) = Suc (weight a + weight b)"
| "weight (Alternate a b) = Suc (weight a + weight b)"
| "weight _ = 0"

function backtrack :: "regex \<Rightarrow> nat \<Rightarrow> string \<Rightarrow> caps
    \<Rightarrow> (string \<Rightarrow> caps \<Rightarrow> 'a option) \<Rightarrow> 'a option" where
  "backtrack EmptyMatch n rest c k = k rest c"
| "backtrack (Literal r) n rest c k = step_rune (\<lambda>x. x = r) rest c k"
| "backtrack AnyCharNotNL n rest c k = step_rune (\<lambda>x. x \<noteq> 10) rest c k"
| "backtrack (CharClass neg rs) n rest c k = step_rune (\<lambda>x. in_class rs x \<noteq> neg) rest c k"
| "backtrack BeginText n rest c k = (if length rest = n then k rest c else None)"
| "backtrack EndText n rest c k = (if rest = [] then k rest c else None)"
| "backtrack (Capture i re) n rest c k =
     backtrack re n rest c
       (\<lambda>rest' c'. k rest' (c'[i := Some (take (length rest - length rest') rest)]))"
| "backtrack (Star re) n rest c k =
     (case backtrack re n rest c
             (\<lambda>rest' c'. if length rest' < length rest
                          then backtrack (Star re) n rest' c' k else None) of
        Some x \<Rightarrow> Some x
      | None \<Rightarrow> k rest c)"
| "backtrack (Plus re) n rest c k =
     backtrack re n rest c (\<lambda>rest' c'. backtrack (Star re) n rest' c' k)"
| "backtrack (Quest re) n rest c k =
     (case backtrack re n rest c k of Some x \<Rightarrow> Some x | None \<Rightarrow> k rest c)"
| "backtrack (Concat a b) n rest c k =
     backtrack a n rest c (\<lambda>rest' c'. backtrack b n rest' c' k)"
| "backtrack (Alternate a b) n rest c k =
     (case backtrack a n rest c k of Some x \<Rightarrow> Some x | None \<Rightarrow> backtrack b n rest c k)"
  by pat_completeness auto
termination
  by (relation "inv_image (measure weight <*lex*> measure length) (\<lambda>(re, n, rest, c, k). (re, rest))")
     auto


lemma DecodeRuneInString_width: "s \<noteq> [] \<Longrightarrow> 0 < snd (DecodeRuneInString s)"
  by (cases s) (simp_all add: Let_def split: list.split)

record Regexp =
  prog :: regex
  numSubexp :: nat

function search :: "regex \<Rightarrow> nat \<Rightarrow> nat \<Rightarrow> string \<Rightarrow> caps option" where
  "search re ncap n rest =
     (case backtrack re n rest (replicate (Suc ncap) None)
             (\<lambda>rest' c. Some (c[0 := Some (take (length rest - length rest') rest)])) of
        Some c \<Rightarrow> Some c
      | None \<Rightarrow>
          if rest = [] then None
          else search re ncap n (drop (snd (DecodeRuneInString rest)) rest))"
  by pat_completeness auto
termination
  by (relation "measure (\<lambda>(re, ncap, n, rest). length rest)")
     (auto simp: DecodeRuneInString_width)

declare search.simps [simp del]

definition FindStringSubmatch :: "Regexp \<Rightarrow> string \<Rightarrow> string list option" where
  "FindStringSubmatch re s =
     map_option (map (\<lambda>g. case g of None \<Rightarrow> [] | Some x \<Rightarrow> x))
       (search (prog re) (numSubexp re) (length s) s)"

datatype compile_error = ErrSyntax | OutsideModel

function decode_all :: "string \<Rightarrow> rune list option" where
  "decode_all s =
     (if s = [] then Some []
      else (let (r, w) = DecodeRuneInString s in
            if r = RuneError \<and> w = 1 then None
            else map_option ((#) r) (decode_all (drop w s))))"
  by pat_completeness auto
termination
proof (relation "measure length")
  fix s :: string and x :: "rune \<times> nat" and r w
  assume "s \<noteq> []" "x = DecodeRuneInString s" "(r, w) = x"
  then have "0 < w"
    using DecodeRuneInString_width [of s] by (metis snd_conv)
  with \<open>s \<noteq> []\<close> show "(drop w s, s) \<in> measure length" by simp
qed simp

declare decode_all.simps [simp del]

datatype tok = Raw rune | Esc rune

definition isalnum :: "rune \<Rightarrow> bool" where
  "isalnum r = ((48 \<le> r \<and> r \<le> 57) \<or> (65 \<le> r \<and> r \<le> 90) \<or> (97 \<le> r \<and> r \<le> 122))"

fun unescape :: "rune list \<Rightarrow> compile_error + tok list" where
  "unescape [] = Inr []"
| "unescape (r # t) =
     (if r = 92 then
        (case t of
           [] \<Rightarrow> Inl ErrSyntax
         | e # t' \<Rightarrow>
             if e < 128 \<and> \<not> isalnum e then
               (case unescape t' of Inl err \<Rightarrow> Inl err | Inr ts \<Rightarrow> Inr (Esc e # ts))
             else Inl OutsideModel)
      else (case unescape t of Inl err \<Rightarrow> Inl err | Inr ts \<Rightarrow> Inr (Raw r # ts)))"

fun tok_rune :: "tok \<Rightarrow> rune" where
  "tok_rune (Raw r) = r"
| "tok_rune (Esc r) = r"

fun class_items :: "bool \<Rightarrow> tok list \<Rightarrow> (rune \<times> rune) list
    \<Rightarrow> compile_error + ((rune \<times> rune) list \<times> tok list)" where
  "class_items first [] acc = Inl ErrSyntax"
| "class_items first (x # t) acc =
     (if x = Raw 93 \<and> \<not> first then Inr (acc, t)
      else if x = Raw 91 \<and> (case t of c # _ # _ \<Rightarrow> c = Raw 58 | _ \<Rightarrow> False) then Inl OutsideModel
      else
        (case t of
           d # y # t2 \<Rightarrow>
             if d = Raw 45 \<and> y \<noteq> Raw 93 then
               (if tok_rune y < tok_rune x then Inl ErrSyntax
                else class_items False t2 (acc @ [(tok_rune x, tok_rune y)]))
             else class_items False t (acc @ [(tok_rune x, tok_rune x)])
         | _ \<Rightarrow> class_items False t (acc @ [(tok_rune x, tok_rune x)])))"

definition parseClass :: "tok list \<Rightarrow> compile_error + (regex \<times> tok list)" where
  "parseClass t =
     (let (neg, t1) = (case t of x # t' \<Rightarrow> if x = Raw 94 then (True, t') else (False, t)
                       | [] \<Rightarrow> (False, t))
      in case class_items True t1 [] of
           Inl err \<Rightarrow> Inl err
         | Inr (rs, rest) \<Rightarrow> Inr (CharClass neg rs, rest))"

lemma class_items_shorter:
  "class_items first t acc = Inr (rs, rest) \<Longrightarrow> length rest < length t"
proof (induction first t acc arbitrary: rs rest rule: class_items.induct)
  case (1 first acc)
  then show ?case by simp
next
  case (2 first x t acc)
  show ?case
  proof (cases "x = Raw 93 \<and> \<not> first")
    case True
    with "2.prems" show ?thesis by simp
  next
    case stop: False
    show ?thesis
    proof (cases "x = Raw 91 \<and> (case t of c # _ # _ \<Rightarrow> c = Raw 58 | _ \<Rightarrow> False)")
      case True
      with stop "2.prems" show ?thesis by (simp split: if_splits)
    next
      case named: False
      show ?thesis
      proof (cases t)
        case Nil
        with stop named "2.prems" show ?thesis by (simp split: if_splits)
      next
        case (Cons d t1)
        show ?thesis
        proof (cases t1)
          case Nil
          with Cons stop named "2.prems" "2.IH" show ?thesis
            by (fastforce split: if_splits)
        next
          case inner: (Cons y t2)
          show ?thesis
          proof (cases "d = Raw 45 \<and> y \<noteq> Raw 93")
            case True
            with Cons inner stop named "2.prems" "2.IH"
            show ?thesis by (fastforce split: if_splits)
          next
            case False
            with Cons inner stop named "2.prems" "2.IH"
            show ?thesis by (fastforce split: if_splits)
          qed
        qed
      qed
    qed
  qed
qed

lemma parseClass_shorter: "parseClass t = Inr (re, rest) \<Longrightarrow> length rest \<le> length t"
  unfolding parseClass_def
  by (cases t)
     (auto simp del: class_items.simps split: if_splits sum.splits dest!: class_items_shorter)

fun nullable :: "regex \<Rightarrow> bool" where
  "nullable EmptyMatch = True"
| "nullable (Literal r) = False"
| "nullable AnyCharNotNL = False"
| "nullable (CharClass neg rs) = False"
| "nullable BeginText = True"
| "nullable EndText = True"
| "nullable (Capture i re) = nullable re"
| "nullable (Star re) = True"
| "nullable (Plus re) = nullable re"
| "nullable (Quest re) = True"
| "nullable (Concat a b) = (nullable a \<and> nullable b)"
| "nullable (Alternate a b) = (nullable a \<or> nullable b)"

fun concat_of :: "regex list \<Rightarrow> regex" where
  "concat_of [] = EmptyMatch"
| "concat_of [x] = x"
| "concat_of (x # xs) = Concat x (concat_of xs)"

fun alternate_of :: "regex list \<Rightarrow> regex" where
  "alternate_of [] = EmptyMatch"
| "alternate_of [x] = x"
| "alternate_of (x # xs) = Alternate x (alternate_of xs)"

record parser =
  stack :: "(regex list \<times> regex list \<times> nat) list"
  alts :: "regex list"
  items :: "regex list"
  numCap :: nat
  lastRepeat :: bool

definition push :: "regex \<Rightarrow> parser \<Rightarrow> parser" where
  "push re p = p\<lparr>items := re # items p, lastRepeat := False\<rparr>"

definition collapse :: "parser \<Rightarrow> regex" where
  "collapse p = alternate_of (rev (concat_of (rev (items p)) # alts p))"

definition leftParen :: "bool \<Rightarrow> parser \<Rightarrow> parser" where
  "leftParen capturing p =
     (let n = (if capturing then Suc (numCap p) else numCap p) in
      p\<lparr>stack := (alts p, items p, if capturing then n else 0) # stack p,
        alts := [], items := [], numCap := n, lastRepeat := False\<rparr>)"

definition verticalBar :: "parser \<Rightarrow> parser" where
  "verticalBar p = p\<lparr>alts := concat_of (rev (items p)) # alts p, items := [], lastRepeat := False\<rparr>"

definition rightParen :: "parser \<Rightarrow> parser option" where
  "rightParen p =
     (case stack p of
        [] \<Rightarrow> None
      | (a, its, cap) # st \<Rightarrow>
          Some (p\<lparr>stack := st, alts := a,
                  items := (if cap = 0 then collapse p else Capture cap (collapse p)) # its,
                  lastRepeat := False\<rparr>))"

definition repeat :: "rune \<Rightarrow> parser \<Rightarrow> compile_error + parser" where
  "repeat op p =
     (if lastRepeat p then Inl ErrSyntax
      else case items p of
             [] \<Rightarrow> Inl ErrSyntax
           | x # xs \<Rightarrow>
               if op \<noteq> 63 \<and> nullable x then Inl OutsideModel
               else Inr (p\<lparr>items := (if op = 42 then Star x else if op = 43 then Plus x else Quest x) # xs,
                           lastRepeat := True\<rparr>))"


datatype special = LParen | VBar | RParen | Caret | Dollar | Dot | LBrack | RepOp | LBrace | Ordinary

definition classify :: "rune \<Rightarrow> special" where
  "classify r =
     (if r = 40 then LParen else if r = 124 then VBar else if r = 41 then RParen
      else if r = 94 then Caret else if r = 36 then Dollar else if r = 46 then Dot
      else if r = 91 then LBrack else if r = 42 \<or> r = 43 \<or> r = 63 then RepOp
      else if r = 123 then LBrace else Ordinary)"

definition parse_step :: "parser \<Rightarrow> tok \<Rightarrow> tok list \<Rightarrow> compile_error + (parser \<times> tok list)" where
  "parse_step p x t =
     (case x of
        Esc r \<Rightarrow> Inr (push (Literal r) p, t)
      | Raw r \<Rightarrow>
          (case classify r of
             LParen \<Rightarrow>
               (case t of
                  y # t' \<Rightarrow>
                    if y = Raw 63 then
                      (case t' of
                         z # t'' \<Rightarrow> if z = Raw 58 then Inr (leftParen False p, t'') else Inl OutsideModel
                       | [] \<Rightarrow> Inl OutsideModel)
                    else Inr (leftParen True p, t)
                | [] \<Rightarrow> Inr (leftParen True p, t))
           | VBar \<Rightarrow> Inr (verticalBar p, t)
           | RParen \<Rightarrow>
               (case rightParen p of None \<Rightarrow> Inl ErrSyntax | Some p' \<Rightarrow> Inr (p', t))
           | Caret \<Rightarrow> Inr (push BeginText p, t)
           | Dollar \<Rightarrow> Inr (push EndText p, t)
           | Dot \<Rightarrow> Inr (push AnyCharNotNL p, t)
           | LBrack \<Rightarrow>
               (case parseClass t of
                  Inl err \<Rightarrow> Inl err
                | Inr (re, t') \<Rightarrow> Inr (push re p, t'))
           | RepOp \<Rightarrow>
               (if (case t of y # _ \<Rightarrow> y = Raw 63 | [] \<Rightarrow> False) then Inl OutsideModel
                else (case repeat r p of Inl err \<Rightarrow> Inl err | Inr p' \<Rightarrow> Inr (p', t)))
           | LBrace \<Rightarrow>
               (if (case t of y # _ \<Rightarrow> (case y of Raw d \<Rightarrow> 48 \<le> d \<and> d \<le> 57 | Esc d \<Rightarrow> False)
                    | [] \<Rightarrow> False)
                then Inl OutsideModel
                else Inr (push (Literal 123) p, t))
           | Ordinary \<Rightarrow> Inr (push (Literal r) p, t)))"

lemma parse_step_shorter: "parse_step p x t = Inr (p', t') \<Longrightarrow> length t' \<le> length t"
  unfolding parse_step_def
  by (cases x; cases "classify (tok_rune x)")
     (auto split: if_splits list.splits option.splits sum.splits dest: parseClass_shorter)

function parse :: "parser \<Rightarrow> tok list \<Rightarrow> compile_error + (regex \<times> nat)" where
  "parse p [] = (if stack p = [] then Inr (collapse p, numCap p) else Inl ErrSyntax)"
| "parse p (x # t) =
     (case parse_step p x t of
        Inl err \<Rightarrow> Inl err
      | Inr (p', t') \<Rightarrow> parse p' t')"
  by pat_completeness auto
termination
  by (relation "measure (\<lambda>(p, t). length t)")
     (auto dest: parse_step_shorter)

definition Compile :: "string \<Rightarrow> compile_error + Regexp" where
  "Compile expr =
     (case decode_all expr of
        None \<Rightarrow> Inl ErrSyntax
      | Some rs \<Rightarrow>
          (case unescape rs of
             Inl err \<Rightarrow> Inl err
           | Inr ts \<Rightarrow>
               (case parse \<lparr>stack = [], alts = [], items = [], numCap = 0, lastRepeat = False\<rparr> ts of
                  Inl err \<Rightarrow> Inl err
                | Inr (re, n) \<Rightarrow> Inr \<lparr>prog = re, numSubexp = n\<rparr>)))"



section \<open>The router\<close>

definition splitParamSpec :: "string \<Rightarrow> string \<times> string" where
  "splitParamSpec paramSpec =
     (case strings_Index paramSpec '':'' of
        Some colonIdx \<Rightarrow> (take colonIdx paramSpec, drop (colonIdx + 1) paramSpec)
      | None \<Rightarrow> (paramSpec, ''[^/]+''))"

function parsePattern_loop :: "string \<Rightarrow> nat \<Rightarrow> string \<Rightarrow> string list \<Rightarrow> string \<times> string list" where
  "parsePattern_loop pattern i regexPattern paramNames =
     (if i < length pattern then
        (if pattern ! i = CHR ''{'' then
           (case strings_Index (drop i pattern) ''}'' of
              None \<Rightarrow>
                parsePattern_loop pattern (i + 1)
                  (regexPattern @ QuoteMeta (string_of_byte (pattern ! i))) paramNames
            | Some e \<Rightarrow>
                parsePattern_loop pattern (e + i + 1)
                  (regexPattern @ ''('' @ snd (splitParamSpec (slice pattern (i + 1) (e + i))) @ '')'')
                  (paramNames @ [fst (splitParamSpec (slice pattern (i + 1) (e + i)))]))
         else
           parsePattern_loop pattern (i + 1)
             (regexPattern @ QuoteMeta (string_of_byte (pattern ! i))) paramNames)
      else (regexPattern, paramNames))"
  by pat_completeness auto
termination
  by (relation "measure (\<lambda>(pattern, i, regexPattern, paramNames). length pattern - i)") auto

declare parsePattern_loop.simps [simp del]

definition normalizePattern :: "string \<Rightarrow> string" where
  "normalizePattern pattern =
     (if strings_TrimSuffix pattern ''/'' = [] then ''/'' else strings_TrimSuffix pattern ''/'')"

definition parsePattern_source :: "string \<Rightarrow> string \<times> string list" where
  "parsePattern_source pattern =
     (case parsePattern_loop (normalizePattern pattern) 0 ''^'' [] of
        (regexPattern, paramNames) \<Rightarrow> (regexPattern @ ''/?$'', paramNames))"

definition parsePattern :: "string \<Rightarrow> compile_error + (Regexp \<times> string list)" where
  "parsePattern pattern =
     (case Compile (fst (parsePattern_source pattern)) of
        Inl err \<Rightarrow> Inl err
      | Inr re \<Rightarrow> Inr (re, snd (parsePattern_source pattern)))"

function match_loop :: "string list \<Rightarrow> string list \<Rightarrow> nat \<Rightarrow> (string \<rightharpoonup> string) \<Rightarrow> (string \<rightharpoonup> string)" where
  "match_loop names matches i params =
     (if i < length names then
        (if i + 1 < length matches
         then match_loop names matches (i + 1) (params(names ! i \<mapsto> matches ! (i + 1)))
         else match_loop names matches (i + 1) params)
      else params)"
  by pat_completeness auto
termination
  by (relation "measure (\<lambda>(names, matches, i, params). length names - i)") auto

declare match_loop.simps [simp del]

text \<open>The struct \<^verbatim>\<open>Route\<close>; its field \<^verbatim>\<open>method\<close> is \<open>http_method\<close> here.\<close>

record ('h, 'm) Route =
  http_method :: string
  pattern :: string
  handler :: 'h
  middleware :: 'm
  regex :: Regexp
  paramNames :: "string list"

definition Route_match :: "('h, 'm) Route \<Rightarrow> string \<Rightarrow> (string \<rightharpoonup> string) option" where
  "Route_match route path =
     (case FindStringSubmatch (regex route) path of
        None \<Rightarrow> None
      | Some matches \<Rightarrow> Some (match_loop (paramNames route) matches 0 Map.empty))"


text \<open>
  \<^verbatim>\<open>Router.find\<close>: the loop over \<^verbatim>\<open>r.routes\<close> with the local \<^verbatim>\<open>pathMatched\<close>; the three
  results are the route, the parameters and the flag. The read lock has no effect on the
  result of a single call and is left out.
\<close>

record ('h, 'm) Router =
  routes :: "('h, 'm) Route list"
  notFound :: 'h
  methodNotAllowed :: 'h

fun find_loop :: "('h, 'm) Route list \<Rightarrow> string \<Rightarrow> string \<Rightarrow> bool
    \<Rightarrow> ('h, 'm) Route option \<times> (string \<rightharpoonup> string) option \<times> bool" where
  "find_loop [] meth path pathMatched = (None, None, pathMatched)"
| "find_loop (route # rs) meth path pathMatched =
     (case Route_match route path of
        Some ps \<Rightarrow>
          if http_method route = meth then (Some route, Some ps, False)
          else find_loop rs meth path True
      | None \<Rightarrow> find_loop rs meth path pathMatched)"

definition Router_find :: "('h, 'm) Router \<Rightarrow> string \<Rightarrow> string
    \<Rightarrow> ('h, 'm) Route option \<times> (string \<rightharpoonup> string) option \<times> bool" where
  "Router_find r meth path = find_loop (routes r) meth path False"

text \<open>
  \<^verbatim>\<open>Router.Handle\<close>: \<^verbatim>\<open>regexp.MustCompile\<close> panics on an invalid expression, so registration
  returns the error instead of a router in that case.
\<close>

definition Router_Handle :: "('h, 'm) Router \<Rightarrow> string \<Rightarrow> string \<Rightarrow> 'h \<Rightarrow> 'm
    \<Rightarrow> compile_error + ('h, 'm) Router" where
  "Router_Handle r meth pat h mw =
     (case parsePattern pat of
        Inl err \<Rightarrow> Inl err
      | Inr (re, names) \<Rightarrow>
          Inr (r\<lparr>routes := routes r @
                 [\<lparr>http_method = meth, pattern = pat, handler = h, middleware = mw,
                   regex = re, paramNames = names\<rparr>]\<rparr>))"

section \<open>Context, responses and errors\<close>

text \<open>
  A call of the method \<^verbatim>\<open>Error()\<close> of an error value either yields a text or panics (a
  method with a pointer receiver that reads a field of a nil receiver, as \<^verbatim>\<open>(*HTTPError).Error\<close>
  does).
\<close>

datatype error_call = Text string | ErrorPanics

text \<open>
  The values of the interface \<^verbatim>\<open>error\<close> that \<^verbatim>\<open>handleError\<close> tells apart: a pointer to an
  \<^verbatim>\<open>HTTPError\<close> with its \<^verbatim>\<open>Code\<close>, \<^verbatim>\<open>Message\<close> and \<^verbatim>\<open>Err\<close> (\<^term>\<open>None\<close> for \<^verbatim>\<open>nil\<close>,
  otherwise what its \<^verbatim>\<open>Error()\<close> does); the nil pointer of type \<^verbatim>\<open>*HTTPError\<close>, which is a
  non-nil interface value and passes the type assertion; and an error of any other type, given
  by what its \<^verbatim>\<open>Error()\<close> does.
\<close>

datatype error = HTTPError int string "error_call option" | NilHTTPError | PlainError error_call

datatype payload = ErrorJSON int string "string option" | Bytes string

datatype wevent = SetHeader string string | WriteHeader int | Write payload

datatype any = AnyString string | AnyInt int

record Request =
  Method :: string
  URLPath :: string

record Context =
  Request :: Request
  Writer :: "wevent list"
  params :: "string \<rightharpoonup> string"
  store :: "string \<rightharpoonup> any"
  response :: bool

datatype outcome = Returned "error option" | Panicked

type_synonym HandlerFunc = "Context \<Rightarrow> outcome \<times> Context"

type_synonym MiddlewareFunc = "HandlerFunc \<Rightarrow> HandlerFunc"

definition reset :: "Context \<Rightarrow> wevent list \<Rightarrow> Request \<Rightarrow> Context" where
  "reset c w r = c\<lparr>Request := r, Writer := w, params := Map.empty, store := Map.empty,
                     response := False\<rparr>"

definition SetParams :: "Context \<Rightarrow> (string \<rightharpoonup> string) \<Rightarrow> Context" where
  "SetParams c ps = c\<lparr>params := ps\<rparr>"

text \<open>
  \<^verbatim>\<open>Context.Param\<close>: indexing a Go map with an absent key yields the zero value of the
  element type, the empty string.
\<close>

definition Param :: "Context \<Rightarrow> string \<Rightarrow> string" where
  "Param c name = (case params c name of None \<Rightarrow> [] | Some v \<Rightarrow> v)"

definition IsWritten :: "Context \<Rightarrow> bool" where
  "IsWritten c = response c"

definition markWritten :: "Context \<Rightarrow> Context" where
  "markWritten c = c\<lparr>response := True\<rparr>"

definition Context_Method :: "Context \<Rightarrow> string" where
  "Context_Method c = Method (Request c)"

definition Context_Path :: "Context \<Rightarrow> string" where
  "Context_Path c = URLPath (Request c)"

definition emit :: "wevent \<Rightarrow> Context \<Rightarrow> Context" where
  "emit ev c = c\<lparr>Writer := Writer c @ [ev]\<rparr>"

text \<open>
  The response writer is the one of \<^verbatim>\<open>net/http\<close>, seen as the list of the calls made on it.
  Its \<^verbatim>\<open>WriteHeader\<close> returns at once when the header was already written, which a body
  write or a status line other than an informational one brings about, and otherwise panics
  for a status code outside \<^verbatim>\<open>100..999\<close> (\<^verbatim>\<open>checkWriteHeaderCode\<close>).
\<close>

fun commits_header :: "wevent \<Rightarrow> bool" where
  "commits_header (SetHeader k v) = False"
| "commits_header (WriteHeader code) = (\<not> (100 \<le> code \<and> code \<le> 199 \<and> code \<noteq> 101))"
| "commits_header (Write data) = True"

definition wroteHeader :: "wevent list \<Rightarrow> bool" where
  "wroteHeader w = list_ex commits_header w"

definition WriteHeader_panics :: "wevent list \<Rightarrow> int \<Rightarrow> bool" where
  "WriteHeader_panics w code = (\<not> wroteHeader w \<and> (code < 100 \<or> 999 < code))"

text \<open>
  \<^verbatim>\<open>Context.JSON\<close>: the header, the status line, the written flag, then the encoded body
  unless the data is \<^verbatim>\<open>nil\<close> (\<^term>\<open>None\<close>). A panic of \<^verbatim>\<open>WriteHeader\<close> leaves the method
  after the header was set and before the flag. The encoder's write error is not modelled:
  where the call returns, it returns no error.
\<close>

definition Context_JSON :: "int \<Rightarrow> payload option \<Rightarrow> Context \<Rightarrow> outcome \<times> Context" where
  "Context_JSON code data c =
     (let c1 = emit (SetHeader ''Content-Type'' ''application/json; charset=utf-8'') c in
      if WriteHeader_panics (Writer c1) code then (Panicked, c1)
      else
        (let c2 = markWritten (emit (WriteHeader code) c1) in
         case data of
           None \<Rightarrow> (Returned None, c2)
         | Some d \<Rightarrow> (Returned None, emit (Write d) c2)))"

definition Context_String :: "int \<Rightarrow> string \<Rightarrow> Context \<Rightarrow> outcome \<times> Context" where
  "Context_String code s c =
     (let c1 = emit (SetHeader ''Content-Type'' ''text/plain; charset=utf-8'') c in
      if WriteHeader_panics (Writer c1) code then (Panicked, c1)
      else (Returned None, emit (Write (Bytes s)) (markWritten (emit (WriteHeader code) c1))))"

definition Context_Error :: "int \<Rightarrow> string \<Rightarrow> Context \<Rightarrow> outcome \<times> Context" where
  "Context_Error code message c = Context_JSON code (Some (ErrorJSON code message None)) c"

definition Context_NotFound :: "string \<Rightarrow> Context \<Rightarrow> outcome \<times> Context" where
  "Context_NotFound msg c = Context_Error 404 (if msg = [] then ''Not Found'' else msg) c"

definition Context_InternalError :: "string \<Rightarrow> Context \<Rightarrow> outcome \<times> Context" where
  "Context_InternalError msg c =
     Context_Error 500 (if msg = [] then ''Internal Server Error'' else msg) c"

section \<open>Middleware composition\<close>

text \<open>
  The loop \<^verbatim>\<open>for i := len(middleware) - 1; i >= 0; i-- { next = middleware[i](next) }\<close>;
  the counter of \<open>wrap_loop\<close> is \<^verbatim>\<open>i + 1\<close>.
\<close>

fun wrap_loop :: "('a \<Rightarrow> 'a) list \<Rightarrow> nat \<Rightarrow> 'a \<Rightarrow> 'a" where
  "wrap_loop mws 0 next = next"
| "wrap_loop mws (Suc i) next = wrap_loop mws i ((mws ! i) next)"

definition Chain :: "MiddlewareFunc list \<Rightarrow> MiddlewareFunc" where
  "Chain mws = (\<lambda>next. wrap_loop mws (length mws) next)"

definition WrapMiddleware :: "HandlerFunc \<Rightarrow> MiddlewareFunc list \<Rightarrow> HandlerFunc" where
  "WrapMiddleware h mws = wrap_loop mws (length mws) h"

section \<open>The dispatcher\<close>

definition NewRouter :: "(HandlerFunc, 'm) Router" where
  "NewRouter = \<lparr>routes = [], notFound = (\<lambda>c. Context_NotFound ''route not found'' c),
                 methodNotAllowed = (\<lambda>c. Context_Error 405 ''method not allowed'' c)\<rparr>"

definition handleRequest :: "(HandlerFunc, MiddlewareFunc list) Router \<Rightarrow> HandlerFunc" where
  "handleRequest r c =
     (case Router_find r (Context_Method c) (Context_Path c) of
        (None, ps, pathMatched) \<Rightarrow>
          if pathMatched then methodNotAllowed r c else notFound r c
      | (Some route, ps, pathMatched) \<Rightarrow>
          wrap_loop (middleware route) (length (middleware route)) (handler route)
            (SetParams c (case ps of None \<Rightarrow> Map.empty | Some m \<Rightarrow> m)))"

record App =
  router :: "(HandlerFunc, MiddlewareFunc list) Router"
  app_middleware :: "MiddlewareFunc list"
  contextPool :: "Context list"
  debug :: bool

text \<open>
  \<^verbatim>\<open>sync.Pool\<close>: \<^verbatim>\<open>Get\<close> takes an idle context when there is one and calls \<^verbatim>\<open>New\<close>
  otherwise; \<^verbatim>\<open>Put\<close> adds one. The pool is a list of idle contexts.
\<close>

definition pool_New :: Context where
  "pool_New = \<lparr>Request = \<lparr>Method = [], URLPath = []\<rparr>, Writer = [], params = Map.empty,
                store = Map.empty, response = False\<rparr>"

definition pool_Get :: "Context list \<Rightarrow> Context \<times> Context list" where
  "pool_Get pool = (case pool of [] \<Rightarrow> (pool_New, []) | c # cs \<Rightarrow> (c, cs))"

definition pool_Put :: "Context list \<Rightarrow> Context \<Rightarrow> Context list" where
  "pool_Put pool c = c # pool"

text \<open>
  \<^verbatim>\<open>App.handleError\<close>. It has no result and drops the error that the response method
  returns, so its outcome is to return or to panic. It panics where it reads a field of the
  nil \<^verbatim>\<open>*HTTPError\<close>, where the \<^verbatim>\<open>Error()\<close> it calls for the debug text panics (the text
  is an argument, evaluated before the response method runs), and where the response method
  panics.
\<close>

definition dropping_error :: "outcome \<times> Context \<Rightarrow> outcome \<times> Context" where
  "dropping_error res =
     (case res of (Panicked, c) \<Rightarrow> (Panicked, c) | (Returned e, c) \<Rightarrow> (Returned None, c))"

definition handleError :: "App \<Rightarrow> Context \<Rightarrow> error \<Rightarrow> outcome \<times> Context" where
  "handleError a c err =
     (if IsWritten c then (Returned None, c)
      else case err of
             NilHTTPError \<Rightarrow> (Panicked, c)
           | HTTPError code message cause \<Rightarrow>
               (case cause of
                  Some call \<Rightarrow>
                    if debug a then
                      (case call of
                         ErrorPanics \<Rightarrow> (Panicked, c)
                       | Text d \<Rightarrow>
                           dropping_error
                             (Context_JSON code (Some (ErrorJSON code message (Some d))) c))
                    else dropping_error (Context_Error code message c)
                | None \<Rightarrow> dropping_error (Context_Error code message c))
           | PlainError call \<Rightarrow>
               if debug a then
                 (case call of
                    ErrorPanics \<Rightarrow> (Panicked, c)
                  | Text d \<Rightarrow>
                      dropping_error
                        (Context_JSON 500
                           (Some (ErrorJSON 500 ''Internal Server Error'' (Some d))) c))
               else dropping_error (Context_InternalError [] c))"

text \<open>
  The loop of \<^verbatim>\<open>App.ServeHTTP\<close> that wraps the global middleware around
  \<^verbatim>\<open>a.router.handleRequest\<close>, with the closures the source builds.
\<close>

fun serve_loop :: "MiddlewareFunc list \<Rightarrow> nat \<Rightarrow> HandlerFunc \<Rightarrow> HandlerFunc" where
  "serve_loop mws 0 h = h"
| "serve_loop mws (Suc i) h = serve_loop mws i (\<lambda>ctx. (mws ! i) (\<lambda>c. h c) ctx)"

text \<open>
  \<^verbatim>\<open>App.ServeHTTP\<close>. A panic of the handler chain leaves the function at the call
  \<^verbatim>\<open>handler(c)\<close>: the statements after it, \<^verbatim>\<open>handleError\<close> and \<^verbatim>\<open>contextPool.Put\<close>, are
  not deferred and do not run. A panic of \<^verbatim>\<open>handleError\<close> leaves it before
  \<^verbatim>\<open>contextPool.Put\<close> in the same way. The result is the outcome seen by the caller, the
  context as the request left it, and the application with its pool.
\<close>

definition ServeHTTP :: "App \<Rightarrow> wevent list \<Rightarrow> Request \<Rightarrow> outcome \<times> Context \<times> App" where
  "ServeHTTP a w r =
     (case pool_Get (contextPool a) of
        (c0, pool) \<Rightarrow>
          (case serve_loop (app_middleware a) (length (app_middleware a))
                  (handleRequest (router a)) (reset c0 w r) of
             (Panicked, c) \<Rightarrow> (Panicked, c, a\<lparr>contextPool := pool\<rparr>)
           | (Returned None, c) \<Rightarrow> (Returned None, c, a\<lparr>contextPool := pool_Put pool c\<rparr>)
           | (Returned (Some err), c) \<Rightarrow>
               (case handleError a c err of
                  (Panicked, c') \<Rightarrow> (Panicked, c', a\<lparr>contextPool := pool\<rparr>)
                | (Returned e, c') \<Rightarrow>
                    (Returned None, c', a\<lparr>contextPool := pool_Put pool c'\<rparr>))))"

text \<open>
  The \<^verbatim>\<open>Recovery\<close> middleware of \<^verbatim>\<open>middleware/recovery.go\<close> with its default
  configuration: a panic of \<^verbatim>\<open>next\<close> is recovered, the default 500 response is sent unless
  one was written, and the wrapped handler returns \<^verbatim>\<open>nil\<close>. The status 500 is one that
  \<^verbatim>\<open>WriteHeader\<close> accepts, so the response method returns.
\<close>

definition sendDefaultPanicResponse :: "Context \<Rightarrow> Context" where
  "sendDefaultPanicResponse c =
     (if IsWritten c then c
      else snd (Context_JSON 500 (Some (ErrorJSON 500 ''Internal Server Error'' None)) c))"

definition Recovery :: MiddlewareFunc where
  "Recovery next = (\<lambda>c. case next c of
                          (Panicked, c') \<Rightarrow> (Returned None, sendDefaultPanicResponse c')
                        | (Returned e, c') \<Rightarrow> (Returned e, c'))"

section \<open>Route groups\<close>

text \<open>
  A Go slice is a view of a backing array: the array, the offset of the view, its length and
  its capacity. The backing arrays live in a heap, a list indexed by address; \<^verbatim>\<open>make\<close>
  allocates a new array at the next address, filled with the zero value (\<^verbatim>\<open>nil\<close>, here
  \<^term>\<open>None\<close>), and \<^verbatim>\<open>copy\<close> overwrites the first \<^verbatim>\<open>min(len(dst), len(src))\<close> elements of the
  destination's view.
\<close>

record slice =
  array :: nat
  off :: nat
  len :: nat
  cap :: nat

type_synonym 'a heap = "'a option list list"

definition elems :: "'a heap \<Rightarrow> slice \<Rightarrow> 'a option list" where
  "elems h s = take (len s) (drop (off s) (h ! array s))"

definition go_make :: "nat \<Rightarrow> 'a heap \<Rightarrow> slice \<times> 'a heap" where
  "go_make n h = (\<lparr>array = length h, off = 0, len = n, cap = n\<rparr>, h @ [replicate n None])"

definition go_copy :: "slice \<Rightarrow> slice \<Rightarrow> 'a heap \<Rightarrow> 'a heap" where
  "go_copy dst src h =
     h[array dst :=
         take (off dst) (h ! array dst)
         @ take (min (len dst) (len src)) (elems h src)
         @ drop (off dst + min (len dst) (len src)) (h ! array dst)]"

text \<open>\<^verbatim>\<open>s[k:]\<close> for \<^verbatim>\<open>k <= len(s)\<close>.\<close>

definition slice_from :: "slice \<Rightarrow> nat \<Rightarrow> slice" where
  "slice_from s k = s\<lparr>off := off s + k, len := len s - k, cap := cap s - k\<rparr>"

text \<open>
  The struct \<^verbatim>\<open>RouteGroup\<close>. Its \<^verbatim>\<open>router\<close> field points to the router shared by all groups;
  the state a group operation works on is that router together with the heap.
\<close>

record RouteGroup =
  prefix :: string
  group_middleware :: slice

record 'h routing =
  heap :: "(HandlerFunc \<Rightarrow> HandlerFunc) heap"
  shared_router :: "('h, slice) Router"

definition NewRouteGroup :: "string \<Rightarrow> slice \<Rightarrow> RouteGroup" where
  "NewRouteGroup p mw = \<lparr>prefix = strings_TrimSuffix p ''/'', group_middleware = mw\<rparr>"

definition combine :: "slice \<Rightarrow> slice \<Rightarrow> 'a heap \<Rightarrow> slice \<times> 'a heap" where
  "combine gmw mw h =
     (case go_make (len gmw + len mw) h of
        (combined, h1) \<Rightarrow>
          (combined,
           go_copy (slice_from combined (len gmw)) mw (go_copy combined gmw h1)))"

definition RouteGroup_Group :: "RouteGroup \<Rightarrow> string \<Rightarrow> slice \<Rightarrow> 'h routing
    \<Rightarrow> RouteGroup \<times> 'h routing" where
  "RouteGroup_Group g p mw st =
     (case combine (group_middleware g) mw (heap st) of
        (combinedMiddleware, h) \<Rightarrow>
          (\<lparr>prefix = prefix g @ strings_TrimSuffix p ''/'',
            group_middleware = combinedMiddleware\<rparr>,
           st\<lparr>heap := h\<rparr>))"

definition RouteGroup_handle :: "RouteGroup \<Rightarrow> string \<Rightarrow> string \<Rightarrow> 'h \<Rightarrow> slice \<Rightarrow> 'h routing
    \<Rightarrow> compile_error + 'h routing" where
  "RouteGroup_handle g meth pat h mw st =
     (case combine (group_middleware g) mw (heap st) of
        (allMiddleware, hp) \<Rightarrow>
          (case Router_Handle (shared_router st) meth (prefix g @ pat) h allMiddleware of
             Inl err \<Rightarrow> Inl err
           | Inr r \<Rightarrow> Inr (st\<lparr>heap := hp, shared_router := r\<rparr>)))"

text \<open>A slice is valid in a heap when its view lies inside an allocated array.\<close>

definition valid :: "'a heap \<Rightarrow> slice \<Rightarrow> bool" where
  "valid h s = (len s = 0 \<or> (array s < length h \<and> off s + len s \<le> length (h ! array s)))"


section \<open>Definitions used to state the claims\<close>

text \<open>
  Registration followed by \<^verbatim>\<open>Route.match\<close> on the registered route, as
  \<^verbatim>\<open>TestRouterPatternMatching\<close> does for each of its rows.
\<close>

definition matchPattern :: "string \<Rightarrow> string \<Rightarrow> compile_error + (string \<rightharpoonup> string) option" where
  "matchPattern pat path =
     (case parsePattern pat of
        Inl err \<Rightarrow> Inl err
      | Inr (re, names) \<Rightarrow>
          Inr (Route_match \<lparr>http_method = ''GET'', pattern = pat, handler = (), middleware = (),
                            regex = re, paramNames = names\<rparr> path))"

text \<open>
  The middleware and the handler of \<^verbatim>\<open>TestMiddlewareChain\<close>: the middleware records a mark,
  calls \<^verbatim>\<open>next\<close> and records a second mark; the handler records its name. The marks go to
  the response writer.
\<close>

definition logging :: "string \<Rightarrow> string \<Rightarrow> MiddlewareFunc" where
  "logging before after next =
     (\<lambda>c. case next (emit (Write (Bytes before)) c) of
             (r, c') \<Rightarrow> (r, emit (Write (Bytes after)) c'))"

definition marker :: "string \<Rightarrow> HandlerFunc" where
  "marker name = (\<lambda>c. (Returned None, emit (Write (Bytes name)) c))"

text \<open>
  An application without routes whose not-found handler is \<open>h\<close> (\<^verbatim>\<open>SetNotFound\<close>) and whose
  global middleware is \<open>mws\<close> (\<^verbatim>\<open>Use\<close>): every request runs \<open>h\<close> inside \<open>mws\<close>.
\<close>

definition app_with_notFound :: "HandlerFunc \<Rightarrow> MiddlewareFunc list \<Rightarrow> App" where
  "app_with_notFound h mws =
     \<lparr>router = NewRouter\<lparr>notFound := h\<rparr>, app_middleware = mws, contextPool = [], debug = False\<rparr>"

definition panics :: HandlerFunc where
  "panics c = (Panicked, c)"

definition fails_with :: "error \<Rightarrow> HandlerFunc" where
  "fails_with err c = (Returned (Some err), c)"

definition fails_after_writing :: HandlerFunc where
  "fails_after_writing c =
     (Returned (Some (PlainError (Text ''late failure''))), snd (Context_String 200 ''ok'' c))"

text \<open>Routers built by \<^verbatim>\<open>Handle\<close> from a list of methods and patterns.\<close>

definition empty_router :: "(unit, unit) Router" where
  "empty_router = \<lparr>routes = [], notFound = (), methodNotAllowed = ()\<rparr>"

fun register_all :: "(string \<times> string) list \<Rightarrow> (unit, unit) Router \<Rightarrow> (unit, unit) Router" where
  "register_all [] r = r"
| "register_all ((meth, pat) # xs) r =
     (case Router_Handle r meth pat () () of Inl err \<Rightarrow> r | Inr r' \<Rightarrow> register_all xs r')"

definition overlapping :: "(unit, unit) Router" where
  "overlapping = register_all [(''GET'', ''/a/{x}''), (''GET'', ''/a/fixed'')] empty_router"

definition get_only :: "(unit, unit) Router" where
  "get_only = register_all [(''GET'', ''/r'')] empty_router"


text \<open>
  A heap with two middleware arrays, a group \<^verbatim>\<open>/api\<close> over the first and a call-site slice
  over the second.
\<close>

definition api_routing :: "unit routing" where
  "api_routing = \<lparr>heap = [[Some Recovery], [Some (Chain [])]],
                  shared_router = \<lparr>routes = [], notFound = (), methodNotAllowed = ()\<rparr>\<rparr>"

definition api_group :: RouteGroup where
  "api_group = NewRouteGroup ''/api/'' \<lparr>array = 0, off = 0, len = 1, cap = 1\<rparr>"

section \<open>Patterns without placeholders\<close>

text \<open>
  The loop of \<^verbatim>\<open>parsePattern\<close> as a function of the unread rest of the pattern: the
  regular-expression text and the names it appends. Lemma \<open>parsePattern_loop_scan\<close> relates it
  to the index loop.
\<close>

function scan :: "string \<Rightarrow> string \<times> string list" where
  "scan [] = ([], [])"
| "scan (c # s) =
     (if c = CHR ''{'' then
        (case strings_Index (c # s) ''}'' of
           None \<Rightarrow> (QuoteMeta (string_of_byte c) @ fst (scan s), snd (scan s))
         | Some e \<Rightarrow>
             (''('' @ snd (splitParamSpec (slice (c # s) 1 e)) @ '')''
                @ fst (scan (drop (e + 1) (c # s))),
              fst (splitParamSpec (slice (c # s) 1 e)) # snd (scan (drop (e + 1) (c # s)))))
      else (QuoteMeta (string_of_byte c) @ fst (scan s), snd (scan s)))"
  by pat_completeness auto

termination
  by (relation "measure length") auto

declare scan.simps(2) [simp del]

text \<open>
  A pattern has no placeholder when no \<^verbatim>\<open>{\<close> is followed by a \<^verbatim>\<open>}\<close>: the loop then takes
  its literal branch at every byte.
\<close>

fun literal_only :: "string \<Rightarrow> bool" where
  "literal_only [] = True"
| "literal_only (c # s) = ((c \<noteq> CHR ''{'' \<or> CHR ''}'' \<notin> set s) \<and> literal_only s)"

text \<open>What the literal branch appends for a run of bytes, one byte at a time.\<close>

definition quote_all :: "string \<Rightarrow> string" where
  "quote_all s = concat (map (\<lambda>b. QuoteMeta (string_of_byte b)) s)"

text \<open>
  Bytes below \<^verbatim>\<open>0x80\<close> are the ones \<^verbatim>\<open>string(pattern[i])\<close> leaves unchanged; a byte from
  \<^verbatim>\<open>0x80\<close> on is turned into the two-byte encoding of the code point of that number.
\<close>

definition ascii :: "string \<Rightarrow> bool" where
  "ascii s = list_all (\<lambda>b. byte_val b < 128) s"

text \<open>The token that the quoted form of one byte is read as by the parser.\<close>

definition lit_tok :: "char \<Rightarrow> tok" where
  "lit_tok b = (if special_byte b then Esc (byte_val b) else Raw (byte_val b))"

text \<open>
  The program compiled from \<^verbatim>\<open>^\<close>, the quoted bytes and \<^verbatim>\<open>/?$\<close>.
\<close>

definition literal_prog :: "string \<Rightarrow> regex" where
  "literal_prog s =
     concat_of (BeginText # map (\<lambda>b. Literal (byte_val b)) s @ [Quest (Literal 47), EndText])"

section \<open>Patterns as literal text and placeholders\<close>









section \<open>Evaluation rules\<close>

lemmas decode_eval = byte_val_def RuneError_def cont_def

lemmas source_eval =
  parsePattern_source_def normalizePattern_def strings_TrimSuffix_def
  parsePattern_loop.simps string_of_byte_def special_byte_def slice_def
  splitParamSpec_def

lemmas compile_eval =
  Compile_def decode_all.simps isalnum_def parse_step_def classify_def
  push_def leftParen_def rightParen_def repeat_def collapse_def parseClass_def verticalBar_def

lemmas match_eval =
  Route_match_def FindStringSubmatch_def search.simps step_rune_def match_loop.simps

lemmas pattern_eval =
  matchPattern_def parsePattern_def decode_eval source_eval compile_eval match_eval

section \<open>Route lookup: claim C1\<close>

lemma find_loop_first:
  "find_loop rs meth path b =
     (case List.find (\<lambda>route. Route_match route path \<noteq> None \<and> http_method route = meth) rs of
        Some route \<Rightarrow> (Some route, Route_match route path, False)
      | None \<Rightarrow> (None, None, b \<or> list_ex (\<lambda>route. Route_match route path \<noteq> None) rs))"
  by (induction rs arbitrary: b) (auto split: option.splits)

text \<open>
  Claim C1. \<^verbatim>\<open>find\<close> returns the first route, in registration order, whose matcher accepts
  the path and whose method is the requested one, with the parameters that route extracts and
  the flag unset; when there is none it returns no route and the flag tells whether some
  route's matcher accepted the path (method not allowed) or none did (not found).
\<close>

theorem Router_find_first_match:
  "Router_find r meth path =
     (case List.find (\<lambda>route. Route_match route path \<noteq> None \<and> http_method route = meth)
             (routes r) of
        Some route \<Rightarrow> (Some route, Route_match route path, False)
      | None \<Rightarrow> (None, None, list_ex (\<lambda>route. Route_match route path \<noteq> None) (routes r)))"
  by (simp add: Router_find_def find_loop_first split: option.split)

lemma overlapping_routes:
  "map (\<lambda>route. (http_method route, pattern route)) (routes overlapping) =
     [(''GET'', ''/a/{x}''), (''GET'', ''/a/fixed'')]"
  by (simp add: overlapping_def empty_router_def Router_Handle_def parsePattern_def source_eval
      compile_eval decode_eval)

lemma overlapping_match:
  "map (\<lambda>route. Route_match route ''/a/fixed'') (routes overlapping) =
     [Some [''x'' \<mapsto> ''fixed''], Some Map.empty]"
  by (simp add: overlapping_def empty_router_def Router_Handle_def parsePattern_def source_eval
      compile_eval match_eval decode_eval)

lemma get_only_routes:
  "map (\<lambda>route. (http_method route, Route_match route ''/r'', Route_match route ''/q''))
     (routes get_only) = [(''GET'', Some Map.empty, None)]"
  by (simp add: get_only_def empty_router_def Router_Handle_def parsePattern_def source_eval
      compile_eval match_eval decode_eval)

text \<open>
  With \<^verbatim>\<open>/a/{x}\<close> registered before \<^verbatim>\<open>/a/fixed\<close>, a request for \<^verbatim>\<open>/a/fixed\<close> resolves to
  the parametric route; with only \<^verbatim>\<open>GET /r\<close> registered, \<^verbatim>\<open>POST /r\<close> is method-not-allowed
  and requests for \<^verbatim>\<open>/q\<close> are not-found.
\<close>

theorem Router_find_first_match_witness:
  "map_option pattern (fst (Router_find overlapping ''GET'' ''/a/fixed'')) = Some ''/a/{x}''
   \<and> fst (snd (Router_find overlapping ''GET'' ''/a/fixed'')) = Some [''x'' \<mapsto> ''fixed'']
   \<and> Router_find get_only ''POST'' ''/r'' = (None, None, True)
   \<and> Router_find get_only ''GET'' ''/q'' = (None, None, False)
   \<and> Router_find get_only ''DELETE'' ''/q'' = (None, None, False)"
proof -
  obtain r1 r2 where rs: "routes overlapping = [r1, r2]"
    using overlapping_routes by (cases "routes overlapping") auto
  with overlapping_routes overlapping_match
  have r1: "http_method r1 = ''GET''" "pattern r1 = ''/a/{x}''"
      "Route_match r1 ''/a/fixed'' = Some [''x'' \<mapsto> ''fixed'']"
    by simp_all
  obtain g where gs: "routes get_only = [g]"
    using get_only_routes by (cases "routes get_only") auto
  with get_only_routes
  have g: "http_method g = ''GET''" "Route_match g ''/r'' = Some Map.empty" "Route_match g ''/q'' = None"
    by simp_all
  show ?thesis
    using Router_find_first_match [of overlapping "''GET''" "''/a/fixed''"]
      Router_find_first_match [of get_only "''POST''" "''/r''"]
      Router_find_first_match [of get_only "''GET''" "''/q''"]
      Router_find_first_match [of get_only "''DELETE''" "''/q''"]
    by (simp add: rs r1 gs g)
qed

section \<open>Middleware composition: claim C2\<close>

lemma wrap_loop_foldr:
  "n \<le> length mws \<Longrightarrow> wrap_loop mws n next = foldr (\<lambda>m g. m g) (take n mws) next"
proof (induction n arbitrary: "next")
  case 0
  then show ?case by simp
next
  case (Suc n)
  then have "take (Suc n) mws = take n mws @ [mws ! n]"
    by (simp add: take_Suc_conv_app_nth)
  with Suc show ?case by simp
qed

lemma logging_apply:
  "logging before after next c =
     (case next (emit (Write (Bytes before)) c) of (r, c') \<Rightarrow> (r, emit (Write (Bytes after)) c'))"
  by (simp add: logging_def)

lemma onion_foldr:
  "foldr (\<lambda>m g. m g) (map (\<lambda>(a, b). logging a b) ps) (marker name) c =
     (Returned None,
      c\<lparr>Writer := Writer c @ map (\<lambda>s. Write (Bytes s)) (map fst ps @ [name] @ rev (map snd ps))\<rparr>)"
proof (induction ps arbitrary: c)
  case Nil
  show ?case by (simp add: marker_def emit_def)
next
  case (Cons p ps)
  obtain a b where p: "p = (a, b)" by (cases p)
  let ?inner = "foldr (\<lambda>m g. m g) (map (\<lambda>(a, b). logging a b) ps) (marker name)"
  have "foldr (\<lambda>m g. m g) (map (\<lambda>(a, b). logging a b) (p # ps)) (marker name) c
          = logging a b ?inner c"
    by (simp only: p list.map foldr.simps comp_apply case_prod_conv)
  also have "\<dots> = (case ?inner (emit (Write (Bytes a)) c) of
                       (r, c') \<Rightarrow> (r, emit (Write (Bytes b)) c'))"
    by (rule logging_apply)
  also have "\<dots> = (Returned None,
       c\<lparr>Writer := Writer c @
           map (\<lambda>s. Write (Bytes s)) (map fst (p # ps) @ [name] @ rev (map snd (p # ps)))\<rparr>)"
    by (simp only: Cons.IH) (simp add: emit_def p)
  finally show ?case .
qed

text \<open>
  Claim C2. \<^verbatim>\<open>Chain\<close> applied to the middleware list \<open>[m1, ..., mn]\<close> and a handler \<open>h\<close>
  is \<open>m1 (m2 (... (mn h)))\<close>, the first middleware outermost; for the empty list it is \<open>h\<close>
  itself. For middleware that record a mark before and after calling \<^verbatim>\<open>next\<close>, running the
  composed handler records the before-marks in list order, then the handler's mark, then the
  after-marks in reverse order.
\<close>

theorem Chain_composition:
  "Chain mws h = foldr (\<lambda>m g. m g) mws h
   \<and> Chain [] h = h
   \<and> Chain [m1, m2, m3] h = m1 (m2 (m3 h))
   \<and> Chain (map (\<lambda>(a, b). logging a b) ps) (marker name) c =
       (Returned None,
        c\<lparr>Writer := Writer c @
             map (\<lambda>s. Write (Bytes s)) (map fst ps @ [name] @ rev (map snd ps))\<rparr>)"
proof -
  have general: "Chain ms g = foldr (\<lambda>m g. m g) ms g" for ms g
    by (simp add: Chain_def wrap_loop_foldr)
  have three: "Chain [m1, m2, m3] h = m1 (m2 (m3 h))"
    by (simp add: general)
  show ?thesis
    by (simp only: three) (simp add: general onion_foldr)
qed

section \<open>Pattern examples: claim C3\<close>

lemma users_id_source: "parsePattern_source ''/users/{id}'' = (''^/users/([^/]+)/?$'', [''id''])"
  by (simp add: source_eval decode_eval)

lemma users_id_compile:
  "parsePattern ''/users/{id}'' =
     Inr (\<lparr>prog = Concat BeginText (Concat (Literal 47) (Concat (Literal 117) (Concat (Literal 115)
            (Concat (Literal 101) (Concat (Literal 114) (Concat (Literal 115) (Concat (Literal 47)
            (Concat (Capture 1 (Plus (CharClass True [(47, 47)])))
            (Concat (Quest (Literal 47)) EndText))))))))),
           numSubexp = 1\<rparr>, [''id''])"
  by (simp add: parsePattern_def users_id_source compile_eval decode_eval)

lemma users_id_123: "matchPattern ''/users/{id}'' ''/users/123'' = Inr (Some [''id'' \<mapsto> ''123''])"
  by (simp add: matchPattern_def users_id_compile match_eval decode_eval)

lemma users_id_empty: "matchPattern ''/users/{id}'' ''/users/'' = Inr None"
  by (simp add: matchPattern_def users_id_compile match_eval decode_eval)

lemma users_id_extra: "matchPattern ''/users/{id}'' ''/users/123/x'' = Inr None"
  by (simp add: matchPattern_def users_id_compile match_eval decode_eval)


lemma users_digits_abc: "matchPattern ''/users/{id:[0-9]+}'' ''/users/abc'' = Inr None"
  by (simp add: pattern_eval)

lemma users_digits_42: "matchPattern ''/users/{id:[0-9]+}'' ''/users/42'' = Inr (Some [''id'' \<mapsto> ''42''])"
  by (simp add: pattern_eval)

lemma files_catch_all:
  "matchPattern ''/files/{path:.*}'' ''/files/a/b/c.txt'' = Inr (Some [''path'' \<mapsto> ''a/b/c.txt''])"
  by (simp add: pattern_eval)

text \<open>
  Claim C3. The examples of the route mini-language: \<^verbatim>\<open>/users/{id}\<close> matches
  \<^verbatim>\<open>/users/123\<close> with \<open>id = 123\<close> and matches neither \<^verbatim>\<open>/users/\<close> nor \<^verbatim>\<open>/users/123/x\<close>;
  \<^verbatim>\<open>/users/{id:[0-9]+}\<close> rejects \<^verbatim>\<open>/users/abc\<close> and matches \<^verbatim>\<open>/users/42\<close> with \<open>id = 42\<close>;
  \<^verbatim>\<open>/files/{path:.*}\<close> matches \<^verbatim>\<open>/files/a/b/c.txt\<close> with \<open>path = a/b/c.txt\<close>.
\<close>

theorem pattern_examples:
  "matchPattern ''/users/{id}'' ''/users/123'' = Inr (Some [''id'' \<mapsto> ''123''])
   \<and> matchPattern ''/users/{id}'' ''/users/'' = Inr None
   \<and> matchPattern ''/users/{id}'' ''/users/123/x'' = Inr None
   \<and> matchPattern ''/users/{id:[0-9]+}'' ''/users/abc'' = Inr None
   \<and> matchPattern ''/users/{id:[0-9]+}'' ''/users/42'' = Inr (Some [''id'' \<mapsto> ''42''])
   \<and> matchPattern ''/files/{path:.*}'' ''/files/a/b/c.txt'' = Inr (Some [''path'' \<mapsto> ''a/b/c.txt''])"
  by (simp only: users_id_123 users_id_empty users_id_extra users_digits_abc users_digits_42
      files_catch_all simp_thms)

section \<open>Releasing the context: claim C4\<close>

text \<open>
  What a request does with the responses of the framework, evaluated.
\<close>

lemma Context_Error_accepted:
  "\<not> WriteHeader_panics (Writer c) code \<Longrightarrow>
     Context_Error code message c =
       (Returned None,
        emit (Write (ErrorJSON code message None))
          (markWritten (emit (WriteHeader code)
             (emit (SetHeader ''Content-Type'' ''application/json; charset=utf-8'') c))))"
  by (simp add: Context_Error_def Context_JSON_def Let_def emit_def WriteHeader_panics_def
      wroteHeader_def)

lemma Context_Error_refused:
  "WriteHeader_panics (Writer c) code \<Longrightarrow>
     Context_Error code message c =
       (Panicked, emit (SetHeader ''Content-Type'' ''application/json; charset=utf-8'') c)"
  by (simp add: Context_Error_def Context_JSON_def Let_def emit_def WriteHeader_panics_def
      wroteHeader_def)

text \<open>
  Claim C4, as amended. The context acquired by \<^verbatim>\<open>ServeHTTP\<close> is put back into the pool
  exactly when \<^verbatim>\<open>ServeHTTP\<close> returns: the handler chain returned to the dispatcher, with or
  without an error, which includes a panic that a middleware of the chain recovered, and
  \<^verbatim>\<open>handleError\<close>, where the chain returned an error, returned too. When a panic leaves the
  chain or \<^verbatim>\<open>handleError\<close>, the pool keeps only the contexts that were idle: the release is
  not deferred.
\<close>

theorem ServeHTTP_releases_when_it_returns:
  "(fst (ServeHTTP a w r) = Panicked) =
     (case serve_loop (app_middleware a) (length (app_middleware a))
             (handleRequest (router a)) (reset (fst (pool_Get (contextPool a))) w r) of
        (Panicked, c) \<Rightarrow> True
      | (Returned None, c) \<Rightarrow> False
      | (Returned (Some err), c) \<Rightarrow> fst (handleError a c err) = Panicked)
   \<and> (fst (ServeHTTP a w r) \<noteq> Panicked \<longrightarrow>
        fst (ServeHTTP a w r) = Returned None
        \<and> contextPool (snd (snd (ServeHTTP a w r)))
            = pool_Put (snd (pool_Get (contextPool a))) (fst (snd (ServeHTTP a w r))))
   \<and> (fst (ServeHTTP a w r) = Panicked \<longrightarrow>
        contextPool (snd (snd (ServeHTTP a w r))) = snd (pool_Get (contextPool a)))"
  by (simp add: ServeHTTP_def split: prod.splits outcome.splits option.splits)

text \<open>
  A panic recovered by \<^verbatim>\<open>Recovery\<close> and an error translated into a 404 response both end
  with the context in the pool; a handler that returns the nil \<^verbatim>\<open>*HTTPError\<close> makes
  \<^verbatim>\<open>handleError\<close> panic, and the pool stays empty.
\<close>

theorem ServeHTTP_releases_witness:
  "fst (ServeHTTP (app_with_notFound panics [Recovery]) []
          \<lparr>Method = ''GET'', URLPath = ''/x''\<rparr>) = Returned None
   \<and> contextPool (snd (snd (ServeHTTP (app_with_notFound panics [Recovery]) []
                              \<lparr>Method = ''GET'', URLPath = ''/x''\<rparr>)))
       = [fst (snd (ServeHTTP (app_with_notFound panics [Recovery]) []
                      \<lparr>Method = ''GET'', URLPath = ''/x''\<rparr>))]
   \<and> fst (ServeHTTP (app_with_notFound (fails_with (HTTPError 404 ''gone'' None)) []) []
            \<lparr>Method = ''GET'', URLPath = ''/x''\<rparr>) = Returned None
   \<and> contextPool (snd (snd (ServeHTTP
                       (app_with_notFound (fails_with (HTTPError 404 ''gone'' None)) []) []
                       \<lparr>Method = ''GET'', URLPath = ''/x''\<rparr>)))
       = [fst (snd (ServeHTTP (app_with_notFound (fails_with (HTTPError 404 ''gone'' None)) []) []
                      \<lparr>Method = ''GET'', URLPath = ''/x''\<rparr>))]
   \<and> fst (ServeHTTP (app_with_notFound (fails_with NilHTTPError) []) []
            \<lparr>Method = ''GET'', URLPath = ''/x''\<rparr>) = Panicked
   \<and> contextPool (snd (snd (ServeHTTP (app_with_notFound (fails_with NilHTTPError) []) []
                              \<lparr>Method = ''GET'', URLPath = ''/x''\<rparr>))) = []"
proof -
  let ?a = "app_with_notFound panics [Recovery]"
  let ?b = "app_with_notFound (fails_with (HTTPError 404 ''gone'' None)) []"
  let ?n = "app_with_notFound (fails_with NilHTTPError) []"
  let ?r = "\<lparr>Method = ''GET'', URLPath = ''/x''\<rparr>"
  have chain_a: "serve_loop (app_middleware ?a) (length (app_middleware ?a))
                  (handleRequest (router ?a)) (reset (fst (pool_Get (contextPool ?a))) [] ?r)
               = (Returned None, sendDefaultPanicResponse (reset pool_New [] ?r))"
    by (simp add: app_with_notFound_def handleRequest_def Router_find_def NewRouter_def
        panics_def Recovery_def pool_Get_def)
  have chain_b: "serve_loop (app_middleware ?b) (length (app_middleware ?b))
                  (handleRequest (router ?b)) (reset (fst (pool_Get (contextPool ?b))) [] ?r)
               = (Returned (Some (HTTPError 404 ''gone'' None)), reset pool_New [] ?r)"
    by (simp add: app_with_notFound_def handleRequest_def Router_find_def NewRouter_def
        fails_with_def pool_Get_def)
  have ok: "\<not> WriteHeader_panics (Writer (reset pool_New [] ?r)) 404"
    by (simp add: WriteHeader_panics_def)
  have fresh: "\<not> IsWritten (reset pool_New [] ?r)"
    by (simp add: IsWritten_def reset_def)
  have "handleError ?b (reset pool_New [] ?r) (HTTPError 404 ''gone'' None)
          = dropping_error (Context_Error 404 ''gone'' (reset pool_New [] ?r))"
    by (simp add: handleError_def fresh)
  then have translated:
    "fst (handleError ?b (reset pool_New [] ?r) (HTTPError 404 ''gone'' None)) = Returned None"
    unfolding Context_Error_accepted [OF ok] dropping_error_def by simp
  have chain_n: "serve_loop (app_middleware ?n) (length (app_middleware ?n))
                  (handleRequest (router ?n)) (reset (fst (pool_Get (contextPool ?n))) [] ?r)
               = (Returned (Some NilHTTPError), reset pool_New [] ?r)"
    by (simp add: app_with_notFound_def handleRequest_def Router_find_def NewRouter_def
        fails_with_def pool_Get_def)
  have nil: "fst (handleError ?n (reset pool_New [] ?r) NilHTTPError) = Panicked"
    by (simp add: handleError_def fresh)
  have pool: "snd (pool_Get (contextPool ?a)) = []" "snd (pool_Get (contextPool ?b)) = []"
      "snd (pool_Get (contextPool ?n)) = []"
    by (simp_all add: app_with_notFound_def pool_Get_def)
  note recovered = ServeHTTP_releases_when_it_returns [of ?a "[]" ?r, unfolded chain_a pool]
  note failed = ServeHTTP_releases_when_it_returns [of ?b "[]" ?r, unfolded chain_b pool]
  from recovered have "fst (ServeHTTP ?a [] ?r) \<noteq> Panicked"
    by simp
  with recovered have a: "fst (ServeHTTP ?a [] ?r) = Returned None"
      "contextPool (snd (snd (ServeHTTP ?a [] ?r))) = [fst (snd (ServeHTTP ?a [] ?r))]"
    by (simp_all add: pool_Put_def)
  from failed translated have "fst (ServeHTTP ?b [] ?r) \<noteq> Panicked"
    by simp
  with failed have b: "fst (ServeHTTP ?b [] ?r) = Returned None"
      "contextPool (snd (snd (ServeHTTP ?b [] ?r))) = [fst (snd (ServeHTTP ?b [] ?r))]"
    by (simp_all add: pool_Put_def)
  note dereferenced = ServeHTTP_releases_when_it_returns [of ?n "[]" ?r, unfolded chain_n pool]
  from dereferenced nil have n: "fst (ServeHTTP ?n [] ?r) = Panicked"
    by simp
  with dereferenced have n': "contextPool (snd (snd (ServeHTTP ?n [] ?r))) = []"
    by simp
  from a b n n' show ?thesis
    by (simp only: simp_thms)
qed

text \<open>
  The claim as stated, release on every request, fails for a handler that panics under no
  recovering middleware, and for a handler that returns \<^verbatim>\<open>NewHTTPError(0, "")\<close>, whose
  status \<^verbatim>\<open>WriteHeader\<close> refuses: the request ends in the panic and the pool stays empty.
\<close>

theorem ServeHTTP_panic_not_released:
  "fst (ServeHTTP (app_with_notFound panics []) [] \<lparr>Method = ''GET'', URLPath = ''/x''\<rparr>) = Panicked
   \<and> fst (snd (ServeHTTP (app_with_notFound panics []) [] \<lparr>Method = ''GET'', URLPath = ''/x''\<rparr>))
       \<notin> set (contextPool (snd (snd (ServeHTTP (app_with_notFound panics []) []
                                   \<lparr>Method = ''GET'', URLPath = ''/x''\<rparr>))))
   \<and> fst (ServeHTTP (app_with_notFound (fails_with (HTTPError 0 [] None)) []) []
            \<lparr>Method = ''GET'', URLPath = ''/x''\<rparr>) = Panicked
   \<and> contextPool (snd (snd (ServeHTTP (app_with_notFound (fails_with (HTTPError 0 [] None)) []) []
                              \<lparr>Method = ''GET'', URLPath = ''/x''\<rparr>))) = []"
proof -
  let ?r = "\<lparr>Method = ''GET'', URLPath = ''/x''\<rparr>"
  have refused: "WriteHeader_panics (Writer (reset pool_New [] ?r)) 0"
    by (simp add: WriteHeader_panics_def wroteHeader_def reset_def)
  show ?thesis
    by (simp add: ServeHTTP_def app_with_notFound_def handleRequest_def Router_find_def
        NewRouter_def panics_def fails_with_def pool_Get_def handleError_def IsWritten_def
        Context_Error_refused [OF refused] dropping_error_def)
      (simp add: reset_def)
qed

section \<open>Errors after a written response: claim C5\<close>

text \<open>
  Claim C5. When the context's written flag is set, \<^verbatim>\<open>handleError\<close> returns with the context
  unchanged for every error, so nothing is added to the output; a request whose handler chain
  wrote a response and returned an error ends with the context the chain left.
\<close>

theorem handleError_written_noop:
  "IsWritten c \<Longrightarrow>
     handleError a c err = (Returned None, c)
     \<and> (serve_loop (app_middleware a) (length (app_middleware a)) (handleRequest (router a))
            (reset (fst (pool_Get (contextPool a))) w r) = (Returned (Some err), c)
          \<longrightarrow> fst (snd (ServeHTTP a w r)) = c)"
  by (auto simp: handleError_def ServeHTTP_def split: prod.splits)

lemma fails_after_writing_run:
  "serve_loop (app_middleware (app_with_notFound fails_after_writing []))
      (length (app_middleware (app_with_notFound fails_after_writing [])))
      (handleRequest (router (app_with_notFound fails_after_writing [])))
      (reset (fst (pool_Get (contextPool (app_with_notFound fails_after_writing []))))
         [] \<lparr>Method = ''GET'', URLPath = ''/x''\<rparr>)
   = (Returned (Some (PlainError (Text ''late failure''))),
      snd (Context_String 200 ''ok'' (reset pool_New [] \<lparr>Method = ''GET'', URLPath = ''/x''\<rparr>)))"
  by (simp add: app_with_notFound_def handleRequest_def Router_find_def NewRouter_def
      fails_after_writing_def pool_Get_def)

theorem handleError_written_noop_witness:
  "IsWritten (snd (Context_String 200 ''ok'' (reset pool_New [] \<lparr>Method = ''GET'', URLPath = ''/x''\<rparr>)))
   \<and> Writer (fst (snd (ServeHTTP (app_with_notFound fails_after_writing []) []
                         \<lparr>Method = ''GET'', URLPath = ''/x''\<rparr>)))
       = [SetHeader ''Content-Type'' ''text/plain; charset=utf-8'', WriteHeader 200,
          Write (Bytes ''ok'')]"
proof -
  let ?c = "snd (Context_String 200 ''ok'' (reset pool_New [] \<lparr>Method = ''GET'', URLPath = ''/x''\<rparr>))"
  have w: "IsWritten ?c"
    by (simp add: Context_String_def IsWritten_def markWritten_def emit_def Let_def
        WriteHeader_panics_def)
  from handleError_written_noop [OF w, of "app_with_notFound fails_after_writing []"
      "PlainError (Text ''late failure'')" "[]" "\<lparr>Method = ''GET'', URLPath = ''/x''\<rparr>"]
    fails_after_writing_run
  have "fst (snd (ServeHTTP (app_with_notFound fails_after_writing []) []
                         \<lparr>Method = ''GET'', URLPath = ''/x''\<rparr>)) = ?c"
    by simp
  with w show ?thesis
    by (simp add: Context_String_def markWritten_def emit_def reset_def pool_New_def Let_def
        WriteHeader_panics_def)
qed

section \<open>The scan as a function of the rest, and literal patterns\<close>

lemma strings_Index_bound: "strings_Index s sub = Some e \<Longrightarrow> e + length sub \<le> length s"
proof (induction s arbitrary: e)
  case Nil
  then show ?case by (simp split: if_splits)
next
  case (Cons c s)
  show ?case
  proof (cases "take (length sub) (c # s) = sub")
    case True
    with Cons.prems have "e = 0" by simp
    moreover have "length (take (length sub) (c # s)) \<le> length (c # s)"
      by simp
    with True have "length sub \<le> length (c # s)"
      by simp
    ultimately show ?thesis by simp
  next
    case False
    with Cons.prems obtain e' where "strings_Index s sub = Some e'" "e = Suc e'"
      by auto
    with Cons.IH show ?thesis by fastforce
  qed
qed

lemma scan_placeholder:
  "strings_Index (CHR ''{'' # s) ''}'' = Some e \<Longrightarrow>
     scan (CHR ''{'' # s) =
       (''('' @ snd (splitParamSpec (slice (CHR ''{'' # s) 1 e)) @ '')''
          @ fst (scan (drop (e + 1) (CHR ''{'' # s))),
        fst (splitParamSpec (slice (CHR ''{'' # s) 1 e)) # snd (scan (drop (e + 1) (CHR ''{'' # s))))"
  by (subst scan.simps(2)) (simp del: strings_Index.simps)

lemma scan_literal:
  "c \<noteq> CHR ''{'' \<or> strings_Index (c # s) ''}'' = None \<Longrightarrow>
     scan (c # s) = (QuoteMeta (string_of_byte c) @ fst (scan s), snd (scan s))"
  by (subst scan.simps(2)) (auto simp del: strings_Index.simps)

lemma parsePattern_loop_scan:
  "i \<le> length p \<Longrightarrow>
     parsePattern_loop p i acc names =
       (acc @ fst (scan (drop i p)), names @ snd (scan (drop i p)))"
proof (induction p i acc names rule: parsePattern_loop.induct)
  case (1 p i acc names)
  show ?case
  proof (cases "i < length p")
    case False
    with "1.prems" show ?thesis
      by (subst parsePattern_loop.simps) simp
  next
    case True
    then have d: "drop i p = p ! i # drop (Suc i) p"
      by (simp add: Cons_nth_drop_Suc)
    show ?thesis
    proof (cases "p ! i = CHR ''{''")
      case False
      with True "1.IH"(3) show ?thesis
        by (subst parsePattern_loop.simps) (simp add: d scan.simps(2))
    next
      case brace: True
      show ?thesis
      proof (cases "strings_Index (drop i p) ''}''")
        case None
        with True brace "1.IH"(1) show ?thesis
          by (subst parsePattern_loop.simps) (simp add: d scan.simps(2))
      next
        case (Some e)
        from strings_Index_bound [OF Some] True have b: "e + i + 1 \<le> length p"
          by simp
        have sl: "slice (drop i p) 1 e = slice p (i + 1) (e + i)"
          by (simp add: slice_def add.commute)
        have dr: "drop (e + 1) (drop i p) = drop (e + i + 1) p"
          by (simp add: add.commute add.left_commute)
        have d': "drop i p = CHR ''{'' # drop (Suc i) p"
          using d brace by simp
        have "scan (drop i p) =
            (''('' @ snd (splitParamSpec (slice (drop i p) 1 e)) @ '')''
               @ fst (scan (drop (e + 1) (drop i p))),
             fst (splitParamSpec (slice (drop i p) 1 e)) # snd (scan (drop (e + 1) (drop i p))))"
          using Some unfolding d' by (rule scan_placeholder)
        then have sc: "scan (drop i p) =
            (''('' @ snd (splitParamSpec (slice p (i + 1) (e + i))) @ '')''
               @ fst (scan (drop (e + i + 1) p)),
             fst (splitParamSpec (slice p (i + 1) (e + i))) # snd (scan (drop (e + i + 1) p)))"
          by (simp only: sl dr)
        from True brace Some b "1.IH"(2) [OF True brace Some] show ?thesis
          by (subst parsePattern_loop.simps) (simp add: sc)
      qed
    qed
  qed
qed

lemma strings_Index_char_None: "(strings_Index s [c] = None) = (c \<notin> set s)"
  by (induction s) auto




lemma scan_literal_only: "literal_only s \<Longrightarrow> scan s = (quote_all s, [])"
proof (induction s)
  case Nil
  show ?case by (simp add: quote_all_def)
next
  case (Cons c s)
  then have "c \<noteq> CHR ''{'' \<or> strings_Index (c # s) ''}'' = None"
    using strings_Index_char_None [of "c # s" "CHR ''}''"] by auto
  from scan_literal [OF this] Cons show ?case
    by (simp add: quote_all_def)
qed


lemma byte_val_eq: "(b = c) = (byte_val b = byte_val c)"
  by (simp add: byte_val_def)

lemma special_byte_val:
  "special_byte b =
     (byte_val b \<in> {92, 46, 43, 42, 63, 40, 41, 124, 91, 93, 123, 125, 94, 36})"
  by (simp add: special_byte_def byte_val_eq [of b]) (auto simp: byte_val_def)

lemma decode_all_ascii: "ascii s \<Longrightarrow> decode_all s = Some (map byte_val s)"
proof (induction s)
  case Nil
  show ?case by (subst decode_all.simps) simp
next
  case (Cons b s)
  then have "byte_val b < 128" and "decode_all s = Some (map byte_val s)"
    by (simp_all add: ascii_def)
  then show ?case
    by (subst decode_all.simps) (simp add: RuneError_def)
qed

lemma quote_all_Cons: "quote_all (b # s) = QuoteMeta (string_of_byte b) @ quote_all s"
  by (simp add: quote_all_def)

lemma quote_all_Nil: "quote_all [] = []"
  by (simp add: quote_all_def)

lemma quote_ascii_byte:
  "byte_val b < 128 \<Longrightarrow>
     QuoteMeta (string_of_byte b) = (if special_byte b then [CHR 0x5C, b] else [b])"
  by (simp add: string_of_byte_def)

lemma ascii_quote_all: "ascii s \<Longrightarrow> ascii (quote_all s)"
  by (induction s) (auto simp: ascii_def quote_all_Cons quote_all_Nil quote_ascii_byte byte_val_def)

lemma unescape_quote_all:
  "ascii s \<Longrightarrow>
     unescape (map byte_val (quote_all s) @ rs) =
       (case unescape rs of Inl err \<Rightarrow> Inl err | Inr ts \<Rightarrow> Inr (map lit_tok s @ ts))"
proof (induction s)
  case Nil
  show ?case by (simp add: quote_all_Nil split: sum.split)
next
  case (Cons b s)
  then have b: "byte_val b < 128" and ih: "unescape (map byte_val (quote_all s) @ rs) =
       (case unescape rs of Inl err \<Rightarrow> Inl err | Inr ts \<Rightarrow> Inr (map lit_tok s @ ts))"
    by (simp_all add: ascii_def)
  have bs: "byte_val (CHR 0x5C) = 92"
    by (simp add: byte_val_def)
  show ?case
  proof (cases "special_byte b")
    case True
    then have "\<not> isalnum (byte_val b)"
      by (auto simp: special_byte_val isalnum_def)
    with True b show ?thesis
      by (simp add: quote_all_Cons quote_ascii_byte bs ih lit_tok_def split: sum.split)
  next
    case False
    then have "byte_val b \<noteq> 92"
      by (simp add: special_byte_val)
    with False b show ?thesis
      by (simp add: quote_all_Cons quote_ascii_byte ih lit_tok_def split: sum.split)
  qed
qed

lemma parse_step_lit: "parse_step p (lit_tok b) t = Inr (push (Literal (byte_val b)) p, t)"
  by (simp add: lit_tok_def parse_step_def special_byte_val classify_def)

lemma parse_lits:
  "parse p (map lit_tok s @ ts) = parse (foldl (\<lambda>q b. push (Literal (byte_val b)) q) p s) ts"
  by (induction s arbitrary: p) (simp_all add: parse_step_lit)

lemma foldl_push:
  "foldl (\<lambda>q b. push (Literal (byte_val b)) q) p s =
     (if s = [] then p
      else p\<lparr>items := rev (map (\<lambda>b. Literal (byte_val b)) s) @ items p, lastRepeat := False\<rparr>)"
  by (induction s arbitrary: p) (auto simp: push_def)

lemma parse_literal_tokens:
  "parse \<lparr>stack = [], alts = [], items = [], numCap = 0, lastRepeat = False\<rparr>
     (Raw 94 # map lit_tok s @ [Raw 47, Raw 63, Raw 36]) = Inr (literal_prog s, 0)"
proof -
  let ?p0 = "\<lparr>stack = [], alts = [], items = [BeginText], numCap = 0, lastRepeat = False\<rparr>"
  let ?p1 = "foldl (\<lambda>q b. push (Literal (byte_val b)) q) ?p0 s"
  have first: "parse \<lparr>stack = [], alts = [], items = [], numCap = 0, lastRepeat = False\<rparr>
     (Raw 94 # map lit_tok s @ [Raw 47, Raw 63, Raw 36]) = parse ?p0 (map lit_tok s @ [Raw 47, Raw 63, Raw 36])"
    by (simp add: parse_step_def classify_def push_def)
  have p1: "?p1 = \<lparr>stack = [], alts = [],
                   items = rev (map (\<lambda>b. Literal (byte_val b)) s) @ [BeginText],
                   numCap = 0, lastRepeat = False\<rparr>"
    by (simp add: foldl_push)
  have last: "parse \<lparr>stack = [], alts = [],
                   items = rev (map (\<lambda>b. Literal (byte_val b)) s) @ [BeginText],
                   numCap = 0, lastRepeat = False\<rparr> [Raw 47, Raw 63, Raw 36]
              = Inr (literal_prog s, 0)"
    by (simp add: parse_step_def classify_def push_def repeat_def collapse_def literal_prog_def)
  show ?thesis
    by (simp only: first parse_lits p1 last)
qed

lemma Compile_literal:
  assumes "ascii s"
  shows "Compile (''^'' @ quote_all s @ ''/?$'') = Inr \<lparr>prog = literal_prog s, numSubexp = 0\<rparr>"
proof -
  have a: "ascii (''^'' @ quote_all s @ ''/?$'')"
    using ascii_quote_all [OF assms] by (simp add: ascii_def byte_val_def)
  have d: "decode_all (''^'' @ quote_all s @ ''/?$'') =
             Some (94 # map byte_val (quote_all s) @ [47, 63, 36])"
    by (subst decode_all_ascii [OF a]) (simp add: byte_val_def)
  have u: "unescape (94 # map byte_val (quote_all s) @ [47, 63, 36]) =
             Inr (Raw 94 # map lit_tok s @ [Raw 47, Raw 63, Raw 36])"
    by (simp add: unescape_quote_all [OF assms])
  show ?thesis
    unfolding Compile_def d option.case u sum.case parse_literal_tokens by simp
qed

lemma decode_high:
  assumes "128 \<le> byte_val b"
  shows "128 \<le> fst (DecodeRuneInString (b # t))"
proof -
  consider (two) "194 \<le> byte_val b" "byte_val b \<le> 223"
    | (three) "224 \<le> byte_val b" "byte_val b \<le> 239"
    | (four) "240 \<le> byte_val b" "byte_val b \<le> 244"
    | (bad) "byte_val b < 194 \<or> 244 < byte_val b"
    by linarith
  then show ?thesis
  proof cases
    case two
    with assms show ?thesis
      by (auto simp: Let_def RuneError_def split: list.split if_splits)
  next
    case three
    with assms show ?thesis
      by (auto simp: Let_def RuneError_def split: list.split if_splits)
  next
    case four
    with assms show ?thesis
      by (auto simp: Let_def RuneError_def split: list.split if_splits)
  next
    case bad
    with assms show ?thesis
      by (auto simp: Let_def RuneError_def)
  qed
qed

lemma step_ascii_literal:
  assumes "r < 128"
  shows "step_rune (\<lambda>x. x = r) (b # rest) c k = (if byte_val b = r then k rest c else None)"
proof (cases "byte_val b < 128")
  case True
  then show ?thesis by (simp add: step_rune_def)
next
  case False
  then have "128 \<le> byte_val b" by simp
  then have "128 \<le> fst (DecodeRuneInString (b # rest))"
    by (rule decode_high)
  with assms False show ?thesis
    by (auto simp: step_rune_def simp del: DecodeRuneInString.simps split: prod.splits)
qed

lemma backtrack_concat_of_Cons:
  "backtrack (concat_of (x # xs)) n rest c k =
     backtrack x n rest c (\<lambda>rest' c'. backtrack (concat_of xs) n rest' c' k)"
  by (cases xs) simp_all

lemma backtrack_literals:
  "ascii s \<Longrightarrow>
     backtrack (concat_of (map (\<lambda>b. Literal (byte_val b)) s @ res)) n rest c k =
       (if take (length s) rest = s then backtrack (concat_of res) n (drop (length s) rest) c k
        else None)"
proof (induction s arbitrary: rest)
  case Nil
  show ?case by simp
next
  case (Cons b s)
  then have b: "byte_val b < 128" and s: "ascii s"
    by (simp_all add: ascii_def)
  show ?case
  proof (cases rest)
    case Nil
    then show ?thesis
      by (simp add: backtrack_concat_of_Cons step_rune_def)
  next
    case (Cons b' rest')
    then show ?thesis
      using Cons.IH [OF s, of rest']
      by (simp add: backtrack_concat_of_Cons step_ascii_literal [OF b] byte_val_eq [of b' b])
  qed
qed

lemma backtrack_optional_slash_end:
  "backtrack (concat_of [Quest (Literal 47), EndText]) n rest c (\<lambda>rest' c'. Some (f rest' c')) =
     (if rest = ''/'' \<or> rest = [] then Some (f [] c) else None)"
proof (cases rest)
  case Nil
  then show ?thesis by (simp add: step_rune_def)
next
  case (Cons b rest')
  have slash: "(byte_val b = 47) = (b = CHR ''/'')"
    by (simp add: byte_val_eq [of b] byte_val_def)
  show ?thesis
    by (auto simp: Cons slash step_ascii_literal)
qed

lemma backtrack_literal_prog:
  assumes "ascii s"
  shows "backtrack (literal_prog s) (length path) path c (\<lambda>rest' c'. Some (f rest' c')) =
           (if path = s \<or> path = s @ ''/'' then Some (f [] c) else None)"
proof -
  have eq: "(take (length s) path = s \<and> (drop (length s) path = ''/'' \<or> drop (length s) path = []))
            = (path = s \<or> path = s @ ''/'')"
    by (metis append_Nil2 append_eq_conv_conj append_take_drop_id)
  have "backtrack (literal_prog s) (length path) path c (\<lambda>rest' c'. Some (f rest' c')) =
          (if take (length s) path = s
           then backtrack (concat_of [Quest (Literal 47), EndText]) (length path)
                  (drop (length s) path) c (\<lambda>rest' c'. Some (f rest' c'))
           else None)"
    unfolding literal_prog_def backtrack_concat_of_Cons [of BeginText]
    by (simp add: backtrack_literals [OF assms])
  also have "\<dots> = (if path = s \<or> path = s @ ''/'' then Some (f [] c) else None)"
    unfolding backtrack_optional_slash_end using eq by auto
  finally show ?thesis .
qed

lemma search_begin_fail:
  "length rest < n \<Longrightarrow> search (concat_of (BeginText # xs)) ncap n rest = None"
proof (induction "concat_of (BeginText # xs)" ncap n rest rule: search.induct)
  case (1 ncap n rest)
  have first: "backtrack (concat_of (BeginText # xs)) n rest (replicate (Suc ncap) None)
          (\<lambda>rest' c. Some (c[0 := Some (take (length rest - length rest') rest)])) = None"
    using "1.prems" by (simp add: backtrack_concat_of_Cons)
  show ?case
  proof (cases "rest = []")
    case True
    with first show ?thesis by (subst search.simps) simp
  next
    case False
    have "length (drop (snd (DecodeRuneInString rest)) rest) < n"
      using "1.prems" by simp
    with "1.hyps" [OF first False] first False show ?thesis
      by (subst search.simps) simp
  qed
qed

lemma FindStringSubmatch_literal:
  assumes "ascii s"
  shows "FindStringSubmatch \<lparr>prog = literal_prog s, numSubexp = 0\<rparr> path =
           (if path = s \<or> path = s @ ''/'' then Some [path] else None)"
proof -
  let ?k = "\<lambda>rest' c. Some (c[0 := Some (take (length path - length rest') path)])"
  have first: "backtrack (literal_prog s) (length path) path (replicate (Suc 0) None) ?k =
          (if path = s \<or> path = s @ ''/'' then Some [Some path] else None)"
    using backtrack_literal_prog [OF assms, of path "replicate (Suc 0) None"
        "\<lambda>rest' c. c[0 := Some (take (length path - length rest') path)]"]
    by simp
  show ?thesis
  proof (cases "path = s \<or> path = s @ ''/''")
    case True
    with first show ?thesis
      by (simp add: FindStringSubmatch_def search.simps [of _ _ _ path])
  next
    case False
    have "search (literal_prog s) 0 (length path) path = None"
    proof (cases "path = []")
      case True
      with first False show ?thesis
        by (subst search.simps) simp
    next
      case nonempty: False
      then have "length (drop (snd (DecodeRuneInString path)) path) < length path"
        using DecodeRuneInString_width [of path] by simp
      then have "search (literal_prog s) 0 (length path)
                   (drop (snd (DecodeRuneInString path)) path) = None"
        unfolding literal_prog_def by (rule search_begin_fail)
      with first False nonempty show ?thesis
        by (subst search.simps) simp
    qed
    with False show ?thesis
      by (simp add: FindStringSubmatch_def)
  qed
qed

lemma strings_TrimSuffix_slash:
  "strings_TrimSuffix s ''/'' = (if s \<noteq> [] \<and> last s = CHR ''/'' then butlast s else s)"
proof (cases s rule: rev_cases)
  case Nil
  then show ?thesis by (simp add: strings_TrimSuffix_def)
next
  case (snoc ys y)
  then show ?thesis by (auto simp: strings_TrimSuffix_def)
qed

lemma literal_only_take: "literal_only s \<Longrightarrow> literal_only (take n s)"
proof (induction s arbitrary: n)
  case Nil
  show ?case by simp
next
  case (Cons c s)
  show ?case
  proof (cases n)
    case 0
    then show ?thesis by simp
  next
    case (Suc m)
    with Cons show ?thesis
      by (auto dest: in_set_takeD)
  qed
qed

lemma literal_only_butlast: "literal_only s \<Longrightarrow> literal_only (butlast s)"
  by (simp add: butlast_conv_take literal_only_take)


lemma ascii_butlast: "ascii s \<Longrightarrow> ascii (butlast s)"
  by (auto simp: ascii_def list_all_iff dest: in_set_butlastD)

lemma normalizePattern_literal:
  "literal_only pat \<Longrightarrow> literal_only (normalizePattern pat)"
  by (simp add: normalizePattern_def strings_TrimSuffix_slash literal_only_butlast)

lemma ascii_slash: "ascii ''/''"
  by (simp add: ascii_def byte_val_def)

lemma normalizePattern_ascii: "ascii pat \<Longrightarrow> ascii (normalizePattern pat)"
  by (simp add: normalizePattern_def strings_TrimSuffix_slash ascii_butlast ascii_slash)

lemma parsePattern_source_scan:
  "parsePattern_source pat =
     (''^'' @ fst (scan (normalizePattern pat)) @ ''/?$'', snd (scan (normalizePattern pat)))"
  by (simp add: parsePattern_source_def parsePattern_loop_scan)

lemma parsePattern_literal:
  assumes "ascii pat" and "literal_only pat"
  shows "parsePattern pat =
           Inr (\<lparr>prog = literal_prog (normalizePattern pat), numSubexp = 0\<rparr>, [])"
proof -
  have src: "parsePattern_source pat = (''^'' @ quote_all (normalizePattern pat) @ ''/?$'', [])"
    by (simp add: parsePattern_source_scan scan_literal_only
        normalizePattern_literal [OF assms(2)])
  show ?thesis
    unfolding parsePattern_def src fst_conv snd_conv
      Compile_literal [OF normalizePattern_ascii [OF assms(1)]]
    by simp
qed

lemma match_loop_no_names: "match_loop [] matches 0 ps = ps"
  by (subst match_loop.simps) simp

lemma matchPattern_literal:
  assumes "ascii pat" and "literal_only pat"
  shows "matchPattern pat path =
           Inr (if path = normalizePattern pat \<or> path = normalizePattern pat @ ''/''
                then Some Map.empty else None)"
  by (simp add: matchPattern_def parsePattern_literal [OF assms] Route_match_def
      FindStringSubmatch_literal [OF normalizePattern_ascii [OF assms(1)]] match_loop_no_names)

section \<open>Route groups: claim C9\<close>

lemma elems_length: "valid h s \<Longrightarrow> length (elems h s) = len s"
  by (auto simp: valid_def elems_def)

lemma elems_append: "valid h s \<Longrightarrow> elems (h @ [x]) s = elems h s"
  by (auto simp: elems_def valid_def nth_append)

lemma update_last: "(h @ [x])[length h := y] = h @ [y]"
  by simp

lemma combine_result:
  assumes "valid h gmw" "valid h mw" "combine gmw mw h = (s, h')"
  shows "elems h' s = elems h gmw @ elems h mw \<and> array s = length h
         \<and> take (length h) h' = h \<and> length h' = Suc (length h)"
proof -
  let ?n = "len gmw" and ?m = "len mw"
  let ?c = "\<lparr>array = length h, off = 0, len = ?n + ?m, cap = ?n + ?m\<rparr>"
  let ?h1 = "h @ [replicate (?n + ?m) None]"
  let ?h2 = "go_copy ?c gmw ?h1"
  have s: "s = ?c" and h': "h' = go_copy (slice_from ?c ?n) mw ?h2"
    using assms(3) by (auto simp: combine_def go_make_def)
  have l1: "length (elems h gmw) = ?n" using assms(1) by (rule elems_length)
  have l2: "length (elems h mw) = ?m" using assms(2) by (rule elems_length)
  have d: "drop ?n (replicate (?n + ?m) None) = replicate ?m None"
    by simp
  have e1: "elems ?h1 gmw = elems h gmw"
    using assms(1) by (rule elems_append)
  have "?h2 = ?h1[length h := elems h gmw @ replicate ?m None]"
    unfolding go_copy_def e1
    by (simp add: l1 d del: replicate_add)
  then have h2: "?h2 = h @ [elems h gmw @ replicate ?m None]"
    by (simp only: update_last)
  have t: "take ?n (elems h gmw @ replicate ?m None) = elems h gmw"
    using l1 by simp
  have dd: "drop (?n + ?m) (elems h gmw @ replicate ?m None) = []"
    using l1 by simp
  have e2: "elems (h @ [elems h gmw @ replicate ?m None]) mw = elems h mw"
    using assms(2) by (rule elems_append)
  have "go_copy (slice_from ?c ?n) mw (h @ [elems h gmw @ replicate ?m None])
          = (h @ [elems h gmw @ replicate ?m None])[length h := elems h gmw @ elems h mw]"
    unfolding go_copy_def slice_from_def e2
    by (simp add: l1 l2)
  then have h3: "h' = h @ [elems h gmw @ elems h mw]"
    by (simp only: h' h2 update_last)
  show ?thesis
    using l1 l2 by (simp add: h3 s elems_def)
qed


lemma Route_match_regex:
  "regex a = regex b \<Longrightarrow> paramNames a = paramNames b \<Longrightarrow>
     Route_match a path = Route_match b path"
  by (simp add: Route_match_def split: option.split)

text \<open>
  Claim C9. For a parent group with prefix \<open>p\<close> and middleware \<open>M\<close>, \<^verbatim>\<open>Group\<close> with prefix \<open>q\<close>
  and middleware \<open>N\<close> yields a child whose prefix is \<open>p\<close> followed by \<open>q\<close> without its trailing
  separator and whose middleware reads \<open>M @ N\<close>; the child's slice is over a newly allocated
  array, every array that existed before, the parent's included, is unchanged, and nothing is
  registered. \<^verbatim>\<open>handle\<close> with call-site middleware \<open>R\<close> does what \<^verbatim>\<open>Router.Handle\<close> does
  for the group prefix followed by the given pattern: it fails where \<^verbatim>\<open>parsePattern\<close> of that
  text fails, and otherwise appends to the shared router the route with that text as pattern,
  the expression and the names compiled from it, the handler, and a middleware slice that
  reads \<open>M @ R\<close> over a new array. The route therefore answers on the paths that the
  concatenated pattern matches.
\<close>

theorem RouteGroup_Group_and_handle:
  assumes "valid (heap st) (group_middleware g)" and "valid (heap st) mw"
  shows "prefix (fst (RouteGroup_Group g q mw st)) = prefix g @ strings_TrimSuffix q ''/''
       \<and> elems (heap (snd (RouteGroup_Group g q mw st)))
               (group_middleware (fst (RouteGroup_Group g q mw st)))
           = elems (heap st) (group_middleware g) @ elems (heap st) mw
       \<and> array (group_middleware (fst (RouteGroup_Group g q mw st))) = length (heap st)
       \<and> take (length (heap st)) (heap (snd (RouteGroup_Group g q mw st))) = heap st
       \<and> shared_router (snd (RouteGroup_Group g q mw st)) = shared_router st
       \<and> RouteGroup_handle g meth pat h mw st =
           (case parsePattern (prefix g @ pat) of
              Inl err \<Rightarrow> Inl err
            | Inr (re, names) \<Rightarrow>
                Inr (st\<lparr>heap := snd (combine (group_middleware g) mw (heap st)),
                        shared_router := (shared_router st)
                          \<lparr>routes := routes (shared_router st) @
                             [\<lparr>http_method = meth, pattern = prefix g @ pat, handler = h,
                               middleware = fst (combine (group_middleware g) mw (heap st)),
                               regex = re, paramNames = names\<rparr>]\<rparr>\<rparr>))
       \<and> elems (snd (combine (group_middleware g) mw (heap st)))
               (fst (combine (group_middleware g) mw (heap st)))
           = elems (heap st) (group_middleware g) @ elems (heap st) mw
       \<and> array (fst (combine (group_middleware g) mw (heap st))) = length (heap st)
       \<and> take (length (heap st)) (snd (combine (group_middleware g) mw (heap st))) = heap st
       \<and> (case RouteGroup_handle g meth pat h mw st of
             Inl err \<Rightarrow> parsePattern (prefix g @ pat) = Inl err
           | Inr st' \<Rightarrow>
               Inr (Route_match (last (routes (shared_router st'))) path)
                 = matchPattern (prefix g @ pat) path)"
proof -
  obtain s h' where c: "combine (group_middleware g) mw (heap st) = (s, h')"
    by (cases "combine (group_middleware g) mw (heap st)")
  note r = combine_result [OF assms c]
  have group: "RouteGroup_Group g q mw st =
      (\<lparr>prefix = prefix g @ strings_TrimSuffix q ''/'', group_middleware = s\<rparr>, st\<lparr>heap := h'\<rparr>)"
    by (simp add: RouteGroup_Group_def c)
  have handle: "RouteGroup_handle g meth pat h mw st =
           (case parsePattern (prefix g @ pat) of
              Inl err \<Rightarrow> Inl err
            | Inr (re, names) \<Rightarrow>
                Inr (st\<lparr>heap := h',
                        shared_router := (shared_router st)
                          \<lparr>routes := routes (shared_router st) @
                             [\<lparr>http_method = meth, pattern = prefix g @ pat, handler = h,
                               middleware = s, regex = re, paramNames = names\<rparr>]\<rparr>\<rparr>))"
    by (simp add: RouteGroup_handle_def c Router_Handle_def split: sum.splits prod.splits)
  have answers: "(case RouteGroup_handle g meth pat h mw st of
             Inl err \<Rightarrow> parsePattern (prefix g @ pat) = Inl err
           | Inr st' \<Rightarrow>
               Inr (Route_match (last (routes (shared_router st'))) path)
                 = matchPattern (prefix g @ pat) path)"
  proof (cases "parsePattern (prefix g @ pat)")
    case (Inl err)
    then show ?thesis
      unfolding handle by simp
  next
    case (Inr compiled)
    obtain re names where p: "compiled = (re, names)"
      by (cases compiled)
    have "Route_match \<lparr>http_method = meth, pattern = prefix g @ pat, handler = h,
                        middleware = s, regex = re, paramNames = names\<rparr> path
            = Route_match \<lparr>http_method = ''GET'', pattern = prefix g @ pat, handler = (),
                            middleware = (), regex = re, paramNames = names\<rparr> path"
      by (rule Route_match_regex) simp_all
    then show ?thesis
      unfolding handle Inr p matchPattern_def by simp
  qed
  have cs: "fst (combine (group_middleware g) mw (heap st)) = s"
      "snd (combine (group_middleware g) mw (heap st)) = h'"
    by (simp_all add: c)
  from r have r1: "elems h' s = elems (heap st) (group_middleware g) @ elems (heap st) mw"
    and r2: "array s = length (heap st)" and r3: "take (length (heap st)) h' = heap st"
    by simp_all
  show ?thesis
    unfolding cs group fst_conv snd_conv
    by (intro conjI; (rule handle | rule answers | simp add: r1 r2 r3))
qed

text \<open>
  The group \<^verbatim>\<open>/api\<close> with \<^verbatim>\<open>Recovery\<close>: its child for \<^verbatim>\<open>/v1/\<close>, and its route for \<^verbatim>\<open>/users\<close>,
  which is registered, answers on \<^verbatim>\<open>/api/users\<close> and does not answer on \<^verbatim>\<open>/users\<close>.
\<close>

theorem RouteGroup_Group_and_handle_witness:
  "valid (heap api_routing) (group_middleware api_group)
   \<and> valid (heap api_routing) \<lparr>array = 1, off = 0, len = 1, cap = 1\<rparr>
   \<and> prefix (fst (RouteGroup_Group api_group ''/v1/'' \<lparr>array = 1, off = 0, len = 1, cap = 1\<rparr>
                    api_routing)) = ''/api/v1''
   \<and> elems (heap (snd (RouteGroup_Group api_group ''/v1/'' \<lparr>array = 1, off = 0, len = 1, cap = 1\<rparr>
                          api_routing)))
        (group_middleware (fst (RouteGroup_Group api_group ''/v1/''
                                  \<lparr>array = 1, off = 0, len = 1, cap = 1\<rparr> api_routing)))
       = [Some Recovery, Some (Chain [])]
   \<and> (\<exists>st'. RouteGroup_handle api_group ''GET'' ''/users'' ()
               \<lparr>array = 1, off = 0, len = 1, cap = 1\<rparr> api_routing = Inr st'
            \<and> length (routes (shared_router st')) = 1
            \<and> pattern (last (routes (shared_router st'))) = ''/api/users''
            \<and> Route_match (last (routes (shared_router st'))) ''/api/users'' = Some Map.empty
            \<and> Route_match (last (routes (shared_router st'))) ''/users'' = None
            \<and> elems (heap st') (middleware (last (routes (shared_router st'))))
                = [Some Recovery, Some (Chain [])])"
proof -
  let ?mw = "\<lparr>array = 1, off = 0, len = 1, cap = 1\<rparr>"
  let ?G = "RouteGroup_Group api_group ''/v1/'' ?mw api_routing"
  let ?H = "RouteGroup_handle api_group ''GET'' ''/users'' () ?mw api_routing"
  let ?C = "combine (group_middleware api_group) ?mw (heap api_routing)"
  have v1: "valid (heap api_routing) (group_middleware api_group)"
    by (simp add: valid_def api_routing_def api_group_def NewRouteGroup_def)
  have v2: "valid (heap api_routing) ?mw"
    by (simp add: valid_def api_routing_def)
  have e: "elems (heap api_routing) (group_middleware api_group) = [Some Recovery]"
      "elems (heap api_routing) ?mw = [Some (Chain [])]"
      "prefix api_group = ''/api''"
    by (simp_all add: elems_def api_routing_def api_group_def NewRouteGroup_def
        strings_TrimSuffix_def)
  have lit: "ascii ''/api/users''" "literal_only ''/api/users''"
    by (simp_all add: ascii_def byte_val_def)
  have n: "normalizePattern ''/api/users'' = ''/api/users''"
    by (simp add: normalizePattern_def strings_TrimSuffix_def)
  note compiled = parsePattern_literal [OF lit, unfolded n]
  have answers: "matchPattern ''/api/users'' ''/api/users'' = Inr (Some Map.empty)"
      "matchPattern ''/api/users'' ''/users'' = Inr None"
    by (simp_all add: matchPattern_literal [OF lit] n)
  have rs: "routes (shared_router api_routing) = []"
    by (simp add: api_routing_def)
  have ts: "strings_TrimSuffix ''/v1/'' ''/'' = ''/v1''"
    by (simp add: strings_TrimSuffix_def)
  note t = RouteGroup_Group_and_handle [OF v1 v2, of "''/v1/''" "''GET''" "''/users''" "()",
      unfolded e ts append.simps compiled rs sum.case prod.case]
  from t [of "''/api/users''"]
  have d1: "prefix (fst ?G) = ''/api/v1''"
    by (rule conjunct1)
  from t [of "''/api/users''"]
  have d2: "elems (heap (snd ?G)) (group_middleware (fst ?G)) = [Some Recovery, Some (Chain [])]"
    by (elim conjE)
  from t [of "''/api/users''"]
  have cm: "elems (snd ?C) (fst ?C) = [Some Recovery, Some (Chain [])]"
    by (elim conjE)
  from t [of "''/api/users''"]
  have hd: "?H = Inr (api_routing\<lparr>heap := snd ?C,
                         shared_router := (shared_router api_routing)
                           \<lparr>routes :=
                              [\<lparr>http_method = ''GET'', pattern = ''/api/users'', handler = (),
                                middleware = fst ?C,
                                regex = \<lparr>prog = literal_prog ''/api/users'', numSubexp = 0\<rparr>,
                                paramNames = []\<rparr>]\<rparr>\<rparr>)"
    by (elim conjE)
  then obtain st' where h: "?H = Inr st'"
    and st': "st' = api_routing\<lparr>heap := snd ?C,
                         shared_router := (shared_router api_routing)
                           \<lparr>routes :=
                              [\<lparr>http_method = ''GET'', pattern = ''/api/users'', handler = (),
                                middleware = fst ?C,
                                regex = \<lparr>prog = literal_prog ''/api/users'', numSubexp = 0\<rparr>,
                                paramNames = []\<rparr>]\<rparr>\<rparr>"
    by blast
  have a: "length (routes (shared_router st')) = 1"
      "pattern (last (routes (shared_router st'))) = ''/api/users''"
      "elems (heap st') (middleware (last (routes (shared_router st')))) = elems (snd ?C) (fst ?C)"
    unfolding st' by simp_all
  from t [of "''/api/users''", unfolded h sum.case answers]
  have "Inr (Route_match (last (routes (shared_router st'))) ''/api/users'')
          = (Inr (Some Map.empty) :: compile_error + (string \<rightharpoonup> string) option)"
    by (elim conjE)
  then have b: "Route_match (last (routes (shared_router st'))) ''/api/users'' = Some Map.empty"
    by simp
  from t [of "''/users''", unfolded h sum.case answers]
  have "Inr (Route_match (last (routes (shared_router st'))) ''/users'')
          = (Inr None :: compile_error + (string \<rightharpoonup> string) option)"
    by (elim conjE)
  then have c: "Route_match (last (routes (shared_router st'))) ''/users'' = None"
    by simp
  from h a(1,2) b c a(3) [unfolded cm]
  have "\<exists>st'. ?H = Inr st'
            \<and> length (routes (shared_router st')) = 1
            \<and> pattern (last (routes (shared_router st'))) = ''/api/users''
            \<and> Route_match (last (routes (shared_router st'))) ''/api/users'' = Some Map.empty
            \<and> Route_match (last (routes (shared_router st'))) ''/users'' = None
            \<and> elems (heap st') (middleware (last (routes (shared_router st'))))
                = [Some Recovery, Some (Chain [])]"
    by blast
  with v1 v2 d1 d2 show ?thesis
    by (intro conjI)
qed

section \<open>Reading a path parameter: claim C10\<close>

text \<open>
  Claim C10. \<^verbatim>\<open>Param\<close> on a name that is absent from the parameter map returns the empty
  string, the same value it returns when the name was captured as the empty string.
\<close>

theorem Param_absent_is_empty:
  "name \<notin> dom (params c) \<Longrightarrow>
     Param c name = [] \<and> Param c name = Param (SetParams c ((params c)(name \<mapsto> []))) name"
  by (auto simp: Param_def SetParams_def dom_def)

theorem Param_absent_is_empty_witness:
  "''id'' \<notin> dom (params pool_New)
   \<and> Param pool_New ''id'' = []
   \<and> Param pool_New ''id'' = Param (SetParams pool_New ((params pool_New)(''id'' \<mapsto> []))) ''id''"
  using Param_absent_is_empty [of "''id''" pool_New]
  by (simp add: pool_New_def Param_def SetParams_def)

section \<open>Literal patterns: claim C7\<close>

text \<open>
  Claim C7, as amended. For every pattern of ASCII bytes with no placeholder, the compiled
  matcher accepts exactly two paths: the normalized pattern (one trailing separator removed,
  the empty pattern read as \<^verbatim>\<open>/\<close>) and that text followed by one separator; no parameter is
  extracted. The empty pattern and \<^verbatim>\<open>/\<close> compile to the same matcher, which accepts
  \<^verbatim>\<open>/\<close> and \<^verbatim>\<open>//\<close> and nothing else.
\<close>

theorem literal_pattern_accepts:
  "ascii pat \<Longrightarrow> literal_only pat \<Longrightarrow>
     matchPattern pat path =
       Inr (if path = normalizePattern pat \<or> path = normalizePattern pat @ ''/''
            then Some Map.empty else None)
     \<and> parsePattern [] = parsePattern ''/''
     \<and> matchPattern [] path = Inr (if path = ''/'' \<or> path = ''//'' then Some Map.empty else None)
     \<and> matchPattern ''/'' path = Inr (if path = ''/'' \<or> path = ''//'' then Some Map.empty else None)"
proof -
  assume a: "ascii pat" "literal_only pat"
  have e: "ascii []" "literal_only []" "ascii ''/''" "literal_only ''/''"
    by (simp_all add: ascii_def byte_val_def)
  have n: "normalizePattern [] = ''/''" "normalizePattern ''/'' = ''/''"
    by (simp_all add: normalizePattern_def strings_TrimSuffix_def)
  show ?thesis
    using matchPattern_literal [OF a, of path] matchPattern_literal [OF e(1,2), of path]
      matchPattern_literal [OF e(3,4), of path]
    by (simp add: n parsePattern_literal [OF e(1,2)] parsePattern_literal [OF e(3,4)])
qed

text \<open>
  The pattern \<^verbatim>\<open>/users/\<close> accepts \<^verbatim>\<open>/users\<close> and \<^verbatim>\<open>/users/\<close> and rejects \<^verbatim>\<open>/users//\<close> and
  \<^verbatim>\<open>/posts\<close>.
\<close>

theorem literal_pattern_accepts_witness:
  "ascii ''/users/'' \<and> literal_only ''/users/''
   \<and> matchPattern ''/users/'' ''/users'' = Inr (Some Map.empty)
   \<and> matchPattern ''/users/'' ''/users/'' = Inr (Some Map.empty)
   \<and> matchPattern ''/users/'' ''/users//'' = Inr None
   \<and> matchPattern ''/users/'' ''/posts'' = Inr None"
proof -
  have a: "ascii ''/users/''" "literal_only ''/users/''"
    by (simp_all add: ascii_def byte_val_def)
  have n: "normalizePattern ''/users/'' = ''/users''"
    by (simp add: normalizePattern_def strings_TrimSuffix_def)
  show ?thesis
    using literal_pattern_accepts [OF a, of "''/users''"]
      literal_pattern_accepts [OF a, of "''/users/''"]
      literal_pattern_accepts [OF a, of "''/users//''"]
      literal_pattern_accepts [OF a, of "''/posts''"]
    by (simp add: a n)
qed

text \<open>
  Claim C7 as first stated fails: the root matcher accepts \<^verbatim>\<open>//\<close> besides the root path;
  the pattern \<^verbatim>\<open>/a//\<close> accepts \<^verbatim>\<open>/a/\<close>, whose normalized form \<^verbatim>\<open>/a\<close> is not the normalized
  pattern \<^verbatim>\<open>/a/\<close>; and the empty path, whose normalized form is that of the pattern \<^verbatim>\<open>/\<close>,
  is rejected by it.
\<close>

theorem literal_pattern_counterexample:
  "matchPattern ''/'' ''//'' = Inr (Some Map.empty)
   \<and> matchPattern ''/a//'' ''/a/'' = Inr (Some Map.empty)
   \<and> normalizePattern ''/a/'' \<noteq> normalizePattern ''/a//''
   \<and> matchPattern ''/'' [] = Inr None
   \<and> normalizePattern [] = normalizePattern ''/''"
proof -
  have a: "ascii ''/''" "literal_only ''/''" "ascii ''/a//''" "literal_only ''/a//''"
    by (simp_all add: ascii_def byte_val_def)
  have n: "normalizePattern ''/'' = ''/''" "normalizePattern ''/a//'' = ''/a/''"
      "normalizePattern ''/a/'' = ''/a''" "normalizePattern [] = ''/''"
    by (simp_all add: normalizePattern_def strings_TrimSuffix_def)
  show ?thesis
    by (simp add: matchPattern_literal [OF a(1,2)] matchPattern_literal [OF a(3,4)] n)
qed

subsection \<open>A byte from 0x80 on in a pattern\<close>

text \<open>
  The literal branch converts one byte with \<^verbatim>\<open>string(pattern[i])\<close>, which encodes the
  code point of that number. The two bytes of \<^verbatim>\<open>U+00E9\<close> in a pattern therefore become the
  four bytes of \<^verbatim>\<open>U+00C3 U+00A9\<close> in the expression, and the route accepts that text rather
  than its own pattern.
\<close>

lemma string_of_byte_C3: "string_of_byte (CHR 0xC3) = [CHR 0xC3, CHR 0x83]"
  by (simp add: string_of_byte_def byte_val_def char_of_eq_iff take_bit_eq_mod)

lemma string_of_byte_A9: "string_of_byte (CHR 0xA9) = [CHR 0xC2, CHR 0xA9]"
  by (simp add: string_of_byte_def byte_val_def char_of_eq_iff take_bit_eq_mod)

lemma string_of_byte_slash: "string_of_byte (CHR ''/'') = ''/''"
  by (simp add: string_of_byte_def byte_val_def)

lemma na_source:
  "parsePattern_source [CHR ''/'', CHR 0xC3, CHR 0xA9] =
     ([CHR ''^'', CHR ''/'', CHR 0xC3, CHR 0x83, CHR 0xC2, CHR 0xA9, CHR ''/'', CHR ''?'', CHR ''$''], [])"
  by (simp add: parsePattern_source_def normalizePattern_def strings_TrimSuffix_def
      parsePattern_loop.simps string_of_byte_C3 string_of_byte_A9 string_of_byte_slash
      special_byte_def)

lemma na_compile:
  "Compile [CHR ''^'', CHR ''/'', CHR 0xC3, CHR 0x83, CHR 0xC2, CHR 0xA9, CHR ''/'', CHR ''?'', CHR ''$''] =
     Inr \<lparr>prog = concat_of [BeginText, Literal 47, Literal 195, Literal 169, Quest (Literal 47), EndText],
          numSubexp = 0\<rparr>"
  by (simp add: compile_eval decode_eval Let_def)

lemma non_ascii_literal_not_matched:
  "matchPattern [CHR ''/'', CHR 0xC3, CHR 0xA9] [CHR ''/'', CHR 0xC3, CHR 0xA9] = Inr None \<and>
   matchPattern [CHR ''/'', CHR 0xC3, CHR 0xA9] [CHR ''/'', CHR 0xC3, CHR 0x83, CHR 0xC2, CHR 0xA9] = Inr (Some Map.empty)"
  by (simp add: matchPattern_def parsePattern_def na_source na_compile match_eval decode_eval Let_def)

section \<open>An unterminated brace: claim C8\<close>









text \<open>
  With a well-formed placeholder before the brace the route is registered and the brace is
  literal text as well.
\<close>

lemma placeholder_then_unterminated_source:
  "parsePattern_source ''/u/{id}/x{y'' = (''^/u/([^/]+)/x'' @ [CHR 0x5C] @ ''{y/?$'', [''id''])"
  by (simp add: source_eval byte_val_def)

lemma placeholder_then_unterminated:
  "matchPattern ''/u/{id}/x{y'' ''/u/42/x{y'' = Inr (Some [''id'' \<mapsto> ''42''])
   \<and> matchPattern ''/u/{id}/x{y'' ''/u/42/xy'' = Inr None"
  by (simp add: matchPattern_def parsePattern_def placeholder_then_unterminated_source
      compile_eval match_eval decode_eval Let_def)

section \<open>Names and captured values: claim C6\<close>























text \<open>
  The values are those of the capture groups of the whole expression. An expression of a
  placeholder that has a group of its own takes a position: in \<^verbatim>\<open>/{a:(x)y}/{b}\<close> the
  second group is the inner one, and \<open>b\<close> is bound to its value.
\<close>

lemma nested_group_shifts_values:
  "matchPattern ''/{a:(x)y}/{b}'' ''/xy/z'' = Inr (Some [''a'' \<mapsto> ''xy'', ''b'' \<mapsto> ''x''])"
  by (simp add: pattern_eval)

end
